theory Spec2Isabelle
  imports Complex_Main "HOL-Library.Extended_Nat"
begin

section \<open>Python values, dictionaries and exceptions\<close>

text \<open>
  The development embeds \<^verbatim>\<open>src/triton_dejavu/autotuner.py\<close>: the class
  \<^verbatim>\<open>ConfigSpace\<close> with \<^verbatim>\<open>generate_config_list\<close>, and the class
  \<^verbatim>\<open>Autotuner\<close> with \<^verbatim>\<open>_bench\<close>, \<^verbatim>\<open>run\<close> and
  \<^verbatim>\<open>prune_configs\<close>.

  A runtime argument is an integer, a string, or a tensor object. A tensor is a reference
  to a mutable buffer (its address in the heap) together with its element type as
  \<^verbatim>\<open>str(arg.dtype)\<close> renders it; only tensors have the attribute
  \<^verbatim>\<open>dtype\<close>. The heap maps an address to the buffer's contents, so that
  \<^verbatim>\<open>zero_\<close>, \<^verbatim>\<open>clone\<close> and \<^verbatim>\<open>copy_\<close> and the kernel's writes are
  updates of the heap, and two arguments that are the same tensor share their buffer.

  An exception is the name of its class; Python's subclass relation is not modelled. The
  functions that fail return the exception together with the state they leave, since
  \<^verbatim>\<open>run\<close> changes the cache before it raises. Left out are the hashes, the wall-clock
  time of a pass and the printing, none of which a decision of the engine depends on, and
  the method \<^verbatim>\<open>warmup\<close>.
\<close>

type_synonym name = string

datatype pyval = IntV int | StrV string | TensorV nat string

type_synonym heap = "nat \<Rightarrow> int list"

type_synonym pydict = "(name \<times> pyval) list"

datatype exn =
    OutOfResources
  | CompileTimeAssertionFailure
  | AssertionError
  | ValueError string
  | RuntimeError string
  | TypeError string
  | IndexError
  | KeyError
  | AttributeError
  | OtherError string

text \<open>
  A Python \<^verbatim>\<open>dict\<close> is an association list in insertion order with distinct keys:
  \<^verbatim>\<open>d[k] = v\<close> overwrites the value of a key that is present and keeps its position,
  and appends a new key at the end.
\<close>

fun dict_set :: "('k \<times> 'v) list \<Rightarrow> 'k \<Rightarrow> 'v \<Rightarrow> ('k \<times> 'v) list" where
  "dict_set [] k v = [(k, v)]"
| "dict_set ((k', v') # d) k v =
     (if k' = k then (k', v) # d else (k', v') # dict_set d k v)"

text \<open>\<^verbatim>\<open>{**d, **e}\<close>, and \<^verbatim>\<open>dict(pairs)\<close> as the update of the empty dict.\<close>

definition dict_update :: "('k \<times> 'v) list \<Rightarrow> ('k \<times> 'v) list \<Rightarrow> ('k \<times> 'v) list" where
  "dict_update d e = foldl (\<lambda>acc (k, v). dict_set acc k v) d e"

definition dict_of :: "('k \<times> 'v) list \<Rightarrow> ('k \<times> 'v) list" where
  "dict_of ps = dict_update [] ps"

definition dict_keys :: "('k \<times> 'v) list \<Rightarrow> 'k list" where
  "dict_keys d = map fst d"

definition dict_has :: "('k \<times> 'v) list \<Rightarrow> 'k \<Rightarrow> bool" where
  "dict_has d k = (map_of d k \<noteq> None)"

text \<open>\<^verbatim>\<open>d[k]\<close> raises \<^verbatim>\<open>KeyError\<close> on a missing key.\<close>

definition dict_getitem :: "('k \<times> 'v) list \<Rightarrow> 'k \<Rightarrow> exn + 'v" where
  "dict_getitem d k = (case map_of d k of None \<Rightarrow> Inl KeyError | Some v \<Rightarrow> Inr v)"

text \<open>
  A call \<^verbatim>\<open>f(**a, **b)\<close> raises \<^verbatim>\<open>TypeError\<close> when a keyword is given twice;
  otherwise the callee receives the keywords of both.
\<close>

definition call_kwargs :: "pydict \<Rightarrow> pydict \<Rightarrow> exn + pydict" where
  "call_kwargs a b =
     (if list_ex (\<lambda>k. k \<in> set (dict_keys a)) (dict_keys b)
      then Inl (TypeError ''got multiple values for keyword argument'')
      else Inr (a @ b))"

section \<open>Configurations\<close>

text \<open>
  \<^verbatim>\<open>triton.Config\<close>: the tunable parameters \<^verbatim>\<open>kwargs\<close>, the launch parameters and
  an optional \<^verbatim>\<open>pre_hook\<close>. The hook is a callable of the caller; a configuration
  records which one (a number), and the environment below says what it does. Configurations
  are keys of the timing dict and are compared by value.
\<close>

record config =
  kwargs :: pydict
  num_warps :: int
  num_ctas :: int
  num_stages :: int
  maxnreg :: "int option"
  enable_warp_specialization :: bool
  pre_hook :: "nat option"

text \<open>\<^verbatim>\<open>_all_kwargs\<close> (lines 45-60): the launch parameters that are not None join the kwargs.\<close>

definition all_kwargs :: "config \<Rightarrow> pydict" where
  "all_kwargs c =
     dict_update (kwargs c)
       ([(''num_warps'', IntV (num_warps c)),
         (''num_ctas'', IntV (num_ctas c)),
         (''num_stages'', IntV (num_stages c))]
        @ (case maxnreg c of None \<Rightarrow> [] | Some r \<Rightarrow> [(''maxnreg'', IntV r)]))"

section \<open>ConfigSpace\<close>

text \<open>
  The fields of a \<^verbatim>\<open>ConfigSpace\<close> as \<^verbatim>\<open>__init__\<close> leaves them. A condition of
  \<^verbatim>\<open>kwarg_conditions\<close> is a callable on a kwarg dict: it returns a truth value or
  raises.
\<close>

record config_space =
  cs_kwargs :: "(name \<times> pyval list) list"
  cs_num_warps :: "int list"
  cs_num_ctas :: "int list"
  cs_num_stages :: "int list"
  cs_enable_warp_specialization :: "bool list"
  cs_pre_hook :: "nat option"
  kwarg_conditions :: "(pydict \<Rightarrow> exn + bool) list"

text \<open>
  \<^verbatim>\<open>ConfigSpace.__init__\<close> (lines 561-595). \<open>ver\<close> is \<^verbatim>\<open>triton_major_version\<close> and
  \<open>capability\<close> the first component of \<^verbatim>\<open>torch.cuda.get_device_capability()\<close>.
\<close>

definition ConfigSpace_init ::
  "nat \<Rightarrow> nat \<Rightarrow> (name \<times> pyval list) list \<Rightarrow> int list option \<Rightarrow> int list option \<Rightarrow>
   int list option \<Rightarrow> bool list option \<Rightarrow> nat option \<Rightarrow> (pydict \<Rightarrow> exn + bool) list option \<Rightarrow>
   config_space" where
  "ConfigSpace_init ver capability kwargs_with_lists nw ns nc ews ph conds =
     \<lparr> cs_kwargs = kwargs_with_lists,
       cs_num_warps = (case nw of None \<Rightarrow> [4] | Some l \<Rightarrow> l),
       cs_num_ctas = (case nc of None \<Rightarrow> [1] | Some l \<Rightarrow> if capability < 9 then [1] else l),
       cs_num_stages = (case ns of None \<Rightarrow> [2] | Some l \<Rightarrow> l),
       cs_enable_warp_specialization =
         (case ews of None \<Rightarrow> [False] | Some l \<Rightarrow> if 3 \<le> ver then [False] else l),
       cs_pre_hook = ph,
       kwarg_conditions = (case conds of None \<Rightarrow> [] | Some l \<Rightarrow> l) \<rparr>"

text \<open>
  The inner loop of lines 622-625: every condition is called, also after one has
  rejected the combination (there is no \<^verbatim>\<open>break\<close>), and an exception of a condition
  propagates.
\<close>

fun check_conditions :: "(pydict \<Rightarrow> exn + bool) list \<Rightarrow> pydict \<Rightarrow> bool \<Rightarrow> exn + bool" where
  "check_conditions [] kwarg app = Inr app"
| "check_conditions (condition # rest) kwarg app =
     (case condition kwarg of
        Inl e \<Rightarrow> Inl e
      | Inr b \<Rightarrow> check_conditions rest kwarg (if \<not> b then False else app))"

text \<open>The outer loop of lines 619-627.\<close>

fun filter_kwarg_lists :: "(pydict \<Rightarrow> exn + bool) list \<Rightarrow> pydict list \<Rightarrow> exn + pydict list" where
  "filter_kwarg_lists conds [] = Inr []"
| "filter_kwarg_lists conds (kwarg # rest) =
     (case check_conditions conds kwarg True of
        Inl e \<Rightarrow> Inl e
      | Inr app \<Rightarrow>
          (case filter_kwarg_lists conds rest of
             Inl e \<Rightarrow> Inl e
           | Inr kept \<Rightarrow> Inr (if app then kwarg # kept else kept)))"

text \<open>
  Lines 611-617: \<^verbatim>\<open>itertools.product(*vs)\<close> is \<^const>\<open>product_lists\<close> (the last list
  varies fastest), and each combination is zipped with the keys into a dict.
\<close>

definition kwarg_lists_complete :: "config_space \<Rightarrow> pydict list" where
  "kwarg_lists_complete cs =
     map (\<lambda>cur_combination. dict_of (zip (map fst (cs_kwargs cs)) cur_combination))
       (product_lists (map snd (cs_kwargs cs)))"

text \<open>
  Lines 629-641: the launch-parameter product, with \<^verbatim>\<open>enable_warp_specialization\<close>
  only under Triton 2. Under Triton 3 a \<^verbatim>\<open>Config\<close> has no such attribute; the record
  holds False there.
\<close>

definition config_product :: "nat \<Rightarrow> config_space \<Rightarrow> (int \<times> int \<times> int \<times> bool) list" where
  "config_product ver cs =
     (if 3 \<le> ver
      then map (\<lambda>(w, c, s). (w, c, s, False))
             (List.product (cs_num_warps cs) (List.product (cs_num_ctas cs) (cs_num_stages cs)))
      else List.product (cs_num_warps cs)
             (List.product (cs_num_ctas cs)
               (List.product (cs_num_stages cs) (cs_enable_warp_specialization cs))))"

definition make_config :: "config_space \<Rightarrow> pydict \<times> int \<times> int \<times> int \<times> bool \<Rightarrow> config" where
  "make_config cs cc =
     (case cc of (kw, w, c, s, e) \<Rightarrow>
        \<lparr> kwargs = kw, num_warps = w, num_ctas = c, num_stages = s, maxnreg = None,
          enable_warp_specialization = e, pre_hook = cs_pre_hook cs \<rparr>)"

text \<open>\<^verbatim>\<open>ConfigSpace.generate_config_list\<close> (lines 609-667).\<close>

definition generate_config_list :: "nat \<Rightarrow> config_space \<Rightarrow> exn + config list" where
  "generate_config_list ver cs =
     (case filter_kwarg_lists (kwarg_conditions cs) (kwarg_lists_complete cs) of
        Inl e \<Rightarrow> Inl e
      | Inr kwarg_lists \<Rightarrow>
          Inr (map (make_config cs) (List.product kwarg_lists (config_product ver cs))))"

text \<open>
  The two counts of the specification: a combination is valid when every condition returns
  true on it, and the launch combinations are the cross product of the launch lists.
\<close>

definition accepted :: "config_space \<Rightarrow> pydict \<Rightarrow> bool" where
  "accepted cs kwarg = list_all (\<lambda>condition. condition kwarg = Inr True) (kwarg_conditions cs)"

definition launch_combinations :: "nat \<Rightarrow> config_space \<Rightarrow> nat" where
  "launch_combinations ver cs =
     length (cs_num_warps cs) * length (cs_num_ctas cs) * length (cs_num_stages cs)
       * (if 3 \<le> ver then 1 else length (cs_enable_warp_specialization cs))"

definition no_condition_raises :: "config_space \<Rightarrow> bool" where
  "no_condition_raises cs =
     list_all (\<lambda>kwarg. list_all (\<lambda>condition. \<not> isl (condition kwarg)) (kwarg_conditions cs))
       (kwarg_lists_complete cs)"

section \<open>The autotuner: state and environment\<close>

text \<open>
  A timing is what \<^verbatim>\<open>_bench\<close> returns: a float in graph mode
  (\<^verbatim>\<open>do_bench_cudagraph\<close> with \<^verbatim>\<open>return_mode="median"\<close>), the list of the three
  quantiles \<^verbatim>\<open>(0.5, 0.2, 0.8)\<close> otherwise. Latencies are extended naturals (a count of
  time units): only their order and \<^verbatim>\<open>float("inf")\<close>, here \<open>\<infinity>\<close>, matter to the engine,
  and a measured latency is finite.
\<close>

datatype timing = Scalar enat | Quantiles enat enat enat

text \<open>
  The trace is the invocation counter of a kernel test double: \<open>Bench c\<close> when the
  benchmarking harness is entered for the candidate \<open>c\<close>, \<open>Trial c\<close> for each kernel
  invocation the harness makes, \<open>Production c\<close> for the production invocation.
\<close>

datatype event = Bench config | Trial config | Production config

text \<open>The candidates for which the harness was entered, in order.\<close>

fun benches :: "event list \<Rightarrow> config list" where
  "benches [] = []"
| "benches (Bench c # evs) = c # benches evs"
| "benches (Trial c # evs) = benches evs"
| "benches (Production c # evs) = benches evs"

text \<open>
  The mutable state: the attributes \<^verbatim>\<open>cache\<close>, \<^verbatim>\<open>_timings\<close> (here \<open>timings\<close>) and
  \<^verbatim>\<open>restore_copies\<close> of the \<^verbatim>\<open>Autotuner\<close>, the heap of tensor buffers, the trace, and
  the calls of \<^verbatim>\<open>global_dejavu_storage.add_autotuner_cache\<close> with the cache and the timings
  each was given. A cache key is the tuple built by \<^verbatim>\<open>run\<close>.
\<close>

record state =
  cache :: "(pyval list \<times> config) list"
  timings :: "(pyval list \<times> timing) list"
  restore_copies :: "int list list"
  heap :: heap
  trace :: "event list"
  store :: "((pyval list \<times> config) list \<times> (pyval list \<times> timing) list) list"

text \<open>\<^verbatim>\<open>top_k\<close> of \<^verbatim>\<open>prune_configs_by\<close> is an int or a float.\<close>

datatype top_k = TopInt int | TopFloat rat

text \<open>
  The attributes of an \<^verbatim>\<open>Autotuner\<close> that \<^verbatim>\<open>__init__\<close> sets and no method changes.
  The hooks and the pruning functions are callables of the caller: a hook acts on the heap
  and may raise, and what it leaves in the heap when it raises is its own business.
\<close>

record autotuner =
  triton_major_version :: nat
  arg_names :: "name list"
  configs :: "config list"
  key_idx :: "nat list"
  reset_idx :: "nat list"
  restore_idx :: "nat list"
  custom_pre_hook :: "(pyval list \<Rightarrow> bool \<Rightarrow> heap \<Rightarrow> (exn + unit) \<times> heap) option"
  custom_post_hook :: "(pyval list \<Rightarrow> heap \<Rightarrow> (exn + unit) \<times> heap) option"
  perf_model :: "(pydict \<Rightarrow> exn + rat) option"
  configs_top_k :: top_k
  early_config_prune :: "(config list \<Rightarrow> pydict \<Rightarrow> pydict \<Rightarrow> exn + config list) option"
  use_cuda_graph :: bool

text \<open>
  The environment, which is not code of the repository: the kernel \<^verbatim>\<open>fn.run\<close>, the
  pre-hooks that configurations carry, and the benchmarking harness of
  \<^verbatim>\<open>triton.testing\<close>. Each takes the number of events traced so far as its first
  argument, so none of them need behave the same way twice. The kernel receives the
  positional arguments and the keywords, and returns a value or raises; either way it
  leaves a heap. The harness invokes the callable it is given \<open>harness_calls\<close> times and
  then returns what it measured, or raises.
\<close>

record world =
  fn_run :: "nat \<Rightarrow> pyval list \<Rightarrow> pydict \<Rightarrow> heap \<Rightarrow> (exn + pyval) \<times> heap"
  config_pre_hook :: "nat \<Rightarrow> nat \<Rightarrow> pydict \<Rightarrow> heap \<Rightarrow> (exn + unit) \<times> heap"
  harness_calls :: "nat \<Rightarrow> config \<Rightarrow> nat"
  measured_quantiles :: "nat \<Rightarrow> config \<Rightarrow> exn + nat \<times> nat \<times> nat"
  measured_median :: "nat \<Rightarrow> config \<Rightarrow> exn + nat"

section \<open>Hooks\<close>

text \<open>\<^verbatim>\<open>args[i]\<close> on the tuple of positional arguments.\<close>

definition arg_at :: "pyval list \<Rightarrow> nat \<Rightarrow> exn + pyval" where
  "arg_at args i = (if i < length args then Inr (args ! i) else Inl IndexError)"

text \<open>
  The tensor methods \<^verbatim>\<open>zero_\<close>, \<^verbatim>\<open>clone\<close> and \<^verbatim>\<open>copy_\<close>: the first fills the
  buffer with zeros, the second copies the contents, the third overwrites them. A value
  that is not a tensor has none of these attributes.
\<close>

definition tensor_zero :: "pyval \<Rightarrow> heap \<Rightarrow> (exn + unit) \<times> heap" where
  "tensor_zero v h =
     (case v of
        TensorV a dt \<Rightarrow> (Inr (), h(a := map (\<lambda>x. 0) (h a)))
      | _ \<Rightarrow> (Inl AttributeError, h))"

definition tensor_clone :: "pyval \<Rightarrow> heap \<Rightarrow> exn + int list" where
  "tensor_clone v h = (case v of TensorV a dt \<Rightarrow> Inr (h a) | _ \<Rightarrow> Inl AttributeError)"

definition tensor_copy :: "pyval \<Rightarrow> int list \<Rightarrow> heap \<Rightarrow> (exn + unit) \<times> heap" where
  "tensor_copy v src h =
     (case v of
        TensorV a dt \<Rightarrow> (Inr (), h(a := src))
      | _ \<Rightarrow> (Inl AttributeError, h))"

text \<open>Lines 116-117: \<^verbatim>\<open>for i in self.reset_idx: args[i].zero_()\<close>.\<close>

fun zero_all :: "pyval list \<Rightarrow> nat list \<Rightarrow> heap \<Rightarrow> (exn + unit) \<times> heap" where
  "zero_all args [] h = (Inr (), h)"
| "zero_all args (i # rest) h =
     (case arg_at args i of
        Inl e \<Rightarrow> (Inl e, h)
      | Inr v \<Rightarrow>
          (case tensor_zero v h of
             (Inl e, h') \<Rightarrow> (Inl e, h')
           | (Inr u, h') \<Rightarrow> zero_all args rest h'))"

text \<open>Line 119: \<^verbatim>\<open>[args[i].clone() for i in self.restore_idx]\<close>.\<close>

fun clone_all :: "pyval list \<Rightarrow> nat list \<Rightarrow> heap \<Rightarrow> exn + int list list" where
  "clone_all args [] h = Inr []"
| "clone_all args (i # rest) h =
     (case arg_at args i of
        Inl e \<Rightarrow> Inl e
      | Inr v \<Rightarrow>
          (case tensor_clone v h of
             Inl e \<Rightarrow> Inl e
           | Inr c \<Rightarrow>
               (case clone_all args rest h of
                  Inl e \<Rightarrow> Inl e
                | Inr cs \<Rightarrow> Inr (c # cs))))"

text \<open>
  Lines 130-131: \<^verbatim>\<open>for i, j in enumerate(self.restore_idx):
  args[j].copy_(self.restore_copies[i])\<close>, with \<open>i\<close> the position reached.
\<close>

fun copy_all :: "pyval list \<Rightarrow> nat list \<Rightarrow> nat \<Rightarrow> int list list \<Rightarrow> heap \<Rightarrow> (exn + unit) \<times> heap" where
  "copy_all args [] i copies h = (Inr (), h)"
| "copy_all args (j # rest) i copies h =
     (case arg_at args j of
        Inl e \<Rightarrow> (Inl e, h)
      | Inr v \<Rightarrow>
          (case v of
             TensorV a dt \<Rightarrow>
               (if i < length copies
                then (case tensor_copy v (copies ! i) h of
                        (Inl e, h') \<Rightarrow> (Inl e, h')
                      | (Inr u, h') \<Rightarrow> copy_all args rest (Suc i) copies h')
                else (Inl IndexError, h))
           | _ \<Rightarrow> (Inl AttributeError, h)))"

text \<open>
  \<^verbatim>\<open>self.pre_hook\<close> as lines 107-121 set it: the caller's hook if there is one, else the
  built-in \<^verbatim>\<open>_pre_hook\<close> when an argument is named for reset or restore, else a
  function that does nothing.
\<close>

definition pre_hook_fn :: "autotuner \<Rightarrow> pyval list \<Rightarrow> bool \<Rightarrow> state \<Rightarrow> (exn + unit) \<times> state" where
  "pre_hook_fn self args reset_only st =
     (case custom_pre_hook self of
        Some hook \<Rightarrow>
          (case hook args reset_only (heap st) of (r, h) \<Rightarrow> (r, st\<lparr>heap := h\<rparr>))
      | None \<Rightarrow>
          if 0 < length (reset_idx self) \<or> 0 < length (restore_idx self) then
            (case zero_all args (reset_idx self) (heap st) of
               (Inl e, h) \<Rightarrow> (Inl e, st\<lparr>heap := h\<rparr>)
             | (Inr u, h) \<Rightarrow>
                 if \<not> reset_only then
                   (case clone_all args (restore_idx self) h of
                      Inl e \<Rightarrow> (Inl e, st\<lparr>heap := h\<rparr>)
                    | Inr copies \<Rightarrow> (Inr (), st\<lparr>heap := h, restore_copies := copies\<rparr>))
                 else (Inr (), st\<lparr>heap := h\<rparr>))
          else (Inr (), st))"

text \<open>\<^verbatim>\<open>self.post_hook\<close> as lines 108 and 123-136 set it.\<close>

definition post_hook_fn :: "autotuner \<Rightarrow> pyval list \<Rightarrow> state \<Rightarrow> (exn + unit) \<times> state" where
  "post_hook_fn self args st =
     (case custom_post_hook self of
        Some hook \<Rightarrow>
          (case hook args (heap st) of (r, h) \<Rightarrow> (r, st\<lparr>heap := h\<rparr>))
      | None \<Rightarrow>
          if 0 < length (restore_idx self) then
            (case copy_all args (restore_idx self) 0 (restore_copies st) (heap st) of
               (Inl e, h) \<Rightarrow> (Inl e, st\<lparr>heap := h\<rparr>)
             | (Inr u, h) \<Rightarrow> (Inr (), st\<lparr>heap := h, restore_copies := []\<rparr>))
          else (Inr (), st))"

text \<open>\<^verbatim>\<open>if config.pre_hook: config.pre_hook(full_nargs)\<close>.\<close>

definition call_config_pre_hook :: "world \<Rightarrow> config \<Rightarrow> pydict \<Rightarrow> state \<Rightarrow> (exn + unit) \<times> state" where
  "call_config_pre_hook w config full_nargs st =
     (case pre_hook config of
        None \<Rightarrow> (Inr (), st)
      | Some hook \<Rightarrow>
          (case config_pre_hook w (length (trace st)) hook full_nargs (heap st) of
             (r, h) \<Rightarrow> (r, st\<lparr>heap := h\<rparr>)))"

text \<open>One invocation of the kernel, \<^verbatim>\<open>self.fn.run(*args, **kw)\<close>, traced as \<open>ev\<close>.\<close>

definition invoke :: "world \<Rightarrow> event \<Rightarrow> pyval list \<Rightarrow> pydict \<Rightarrow> state \<Rightarrow> (exn + pyval) \<times> state" where
  "invoke w ev args kw st =
     (case fn_run w (length (trace st)) args kw (heap st) of
        (r, h) \<Rightarrow> (r, st\<lparr>heap := h, trace := trace st @ [ev]\<rparr>))"

section \<open>Benchmarking one candidate\<close>

text \<open>
  The launch parameters that the Triton 2 branches pass as explicit keywords
  (lines 226-234 and 350-358). A boolean is the integer Python takes it for.
\<close>

definition launch_kwargs :: "config \<Rightarrow> pydict" where
  "launch_kwargs c =
     [(''num_warps'', IntV (num_warps c)),
      (''num_stages'', IntV (num_stages c)),
      (''num_ctas'', IntV (num_ctas c)),
      (''enable_warp_specialization'', IntV (if enable_warp_specialization c then 1 else 0))]"

text \<open>
  \<^verbatim>\<open>kernel_call\<close>, the closure of lines 213-235: the configuration's pre-hook, the
  engine's pre-hook, the kernel, the engine's post-hook. An exception ends it where it is
  raised. Under Triton 2 the launch parameters are passed both explicitly and within
  \<^verbatim>\<open>current\<close>.
\<close>

definition kernel_call ::
  "autotuner \<Rightarrow> world \<Rightarrow> pyval list \<Rightarrow> config \<Rightarrow> pydict \<Rightarrow> pydict \<Rightarrow> state \<Rightarrow> (exn + unit) \<times> state" where
  "kernel_call self w args config current full_nargs st =
     (case call_config_pre_hook w config full_nargs st of
        (Inl e, st1) \<Rightarrow> (Inl e, st1)
      | (Inr u, st1) \<Rightarrow>
     (case pre_hook_fn self args False st1 of
        (Inl e, st2) \<Rightarrow> (Inl e, st2)
      | (Inr u, st2) \<Rightarrow>
     (case (if 3 \<le> triton_major_version self then Inr current
            else call_kwargs (launch_kwargs config) current) of
        Inl e \<Rightarrow> (Inl e, st2)
      | Inr kw \<Rightarrow>
     (case invoke w (Trial config) args kw st2 of
        (Inl e, st3) \<Rightarrow> (Inl e, st3)
      | (Inr ret, st3) \<Rightarrow> post_hook_fn self args st3))))"

text \<open>The harness calls its argument a number of times and stops at the first exception.\<close>

fun repeat_call :: "nat \<Rightarrow> (state \<Rightarrow> (exn + unit) \<times> state) \<Rightarrow> state \<Rightarrow> (exn + unit) \<times> state" where
  "repeat_call 0 f st = (Inr (), st)"
| "repeat_call (Suc n) f st =
     (case f st of
        (Inl e, st') \<Rightarrow> (Inl e, st')
      | (Inr u, st') \<Rightarrow> repeat_call n f st')"

text \<open>
  \<^verbatim>\<open>triton.testing.do_bench\<close> with three quantiles and \<^verbatim>\<open>do_bench_cudagraph\<close> with
  the median, as the environment determines them.
\<close>

definition do_bench ::
  "world \<Rightarrow> config \<Rightarrow> (state \<Rightarrow> (exn + unit) \<times> state) \<Rightarrow> state \<Rightarrow> (exn + timing) \<times> state" where
  "do_bench w config f st =
     (case repeat_call (harness_calls w (length (trace st)) config) f
             (st\<lparr>trace := trace st @ [Bench config]\<rparr>) of
        (Inl e, st') \<Rightarrow> (Inl e, st')
      | (Inr u, st') \<Rightarrow>
          (case measured_quantiles w (length (trace st')) config of
             Inl e \<Rightarrow> (Inl e, st')
           | Inr (q50, q20, q80) \<Rightarrow> (Inr (Quantiles (enat q50) (enat q20) (enat q80)), st')))"

definition do_bench_cudagraph ::
  "world \<Rightarrow> config \<Rightarrow> (state \<Rightarrow> (exn + unit) \<times> state) \<Rightarrow> state \<Rightarrow> (exn + timing) \<times> state" where
  "do_bench_cudagraph w config f st =
     (case repeat_call (harness_calls w (length (trace st)) config) f
             (st\<lparr>trace := trace st @ [Bench config]\<rparr>) of
        (Inl e, st') \<Rightarrow> (Inl e, st')
      | (Inr u, st') \<Rightarrow>
          (case measured_median w (length (trace st')) config of
             Inl e \<Rightarrow> (Inl e, st')
           | Inr m \<Rightarrow> (Inr (Scalar (enat m)), st')))"

text \<open>
  The failure sentinel of lines 253-257, 260-264, 275 and 278: \<^verbatim>\<open>float("inf")\<close> in
  graph mode under Triton 3, the list of three otherwise.
\<close>

definition sentinel :: "autotuner \<Rightarrow> timing" where
  "sentinel self =
     (if 3 \<le> triton_major_version self \<and> use_cuda_graph self then Scalar \<infinity>
      else Quantiles \<infinity> \<infinity> \<infinity>)"

text \<open>The exceptions that the \<^verbatim>\<open>except\<close> clauses of \<^verbatim>\<open>_bench\<close> catch.\<close>

definition caught :: "autotuner \<Rightarrow> exn \<Rightarrow> bool" where
  "caught self e =
     (if 3 \<le> triton_major_version self
      then e = OutOfResources \<or> e = CompileTimeAssertionFailure \<or> e = AssertionError
      else e = OutOfResources \<or> e = AssertionError)"

text \<open>
  The body of the \<^verbatim>\<open>try\<close> statements of \<^verbatim>\<open>_bench\<close> (lines 238-251 and
  266-273): the harness is given \<^verbatim>\<open>kernel_call\<close>. \<open>nargs\<close> is the attribute
  \<^verbatim>\<open>self.nargs\<close>, which \<^verbatim>\<open>run\<close> sets before it calls.
\<close>

definition bench_try ::
  "autotuner \<Rightarrow> world \<Rightarrow> pydict \<Rightarrow> pyval list \<Rightarrow> config \<Rightarrow> pydict \<Rightarrow> state \<Rightarrow> (exn + timing) \<times> state" where
  "bench_try self w nargs args config meta st =
     (let current = dict_update meta (all_kwargs config);
          full_nargs = dict_update nargs current;
          f = kernel_call self w args config current full_nargs
      in if 3 \<le> triton_major_version self \<and> use_cuda_graph self
         then do_bench_cudagraph w config f st
         else do_bench w config f st)"

text \<open>
  \<^verbatim>\<open>Autotuner._bench\<close> (lines 195-278): the conflict check, the \<^verbatim>\<open>try\<close> body and
  the \<^verbatim>\<open>except\<close> clauses.
\<close>

definition bench ::
  "autotuner \<Rightarrow> world \<Rightarrow> pydict \<Rightarrow> pyval list \<Rightarrow> config \<Rightarrow> pydict \<Rightarrow> state \<Rightarrow> (exn + timing) \<times> state" where
  "bench self w nargs args config meta st =
     (if list_ex (\<lambda>k. k \<in> set (dict_keys (kwargs config))) (dict_keys meta)
      then (Inl (ValueError ''Conflicting meta-parameters''), st)
      else
        (case bench_try self w nargs args config meta st of
           (Inr t, st') \<Rightarrow> (Inr t, st')
         | (Inl e, st') \<Rightarrow>
             if caught self e then (Inr (sentinel self), st') else (Inl e, st')))"

section \<open>Pruning\<close>

text \<open>
  \<^verbatim>\<open>int(x)\<close> truncates towards zero, and a slice \<^verbatim>\<open>xs[:k]\<close> with a negative \<open>k\<close>
  drops the last \<open>-k\<close> elements. The product \<^verbatim>\<open>len(self.configs) * top_k\<close> is
  taken exactly, not in floating point.
\<close>

definition py_int :: "rat \<Rightarrow> int" where
  "py_int x = (if 0 \<le> x then \<lfloor>x\<rfloor> else \<lceil>x\<rceil>)"

definition py_slice_to :: "int \<Rightarrow> 'a list \<Rightarrow> 'a list" where
  "py_slice_to k xs = (if 0 \<le> k then take (nat k) xs else take (length xs - nat (- k)) xs)"

text \<open>
  The dict comprehension of lines 375-382 and 384-394: the performance model is called
  for every candidate, with \<^verbatim>\<open>**self.nargs, **kwargs\<close> and the configuration's
  parameters as keywords (\<^verbatim>\<open>all_kwargs()\<close> under Triton 3; the kwargs and the three
  launch parameters under Triton 2).
\<close>

definition perf_model_kwargs :: "autotuner \<Rightarrow> pydict \<Rightarrow> pydict \<Rightarrow> config \<Rightarrow> exn + pydict" where
  "perf_model_kwargs self nargs kwargs' config =
     (case call_kwargs nargs kwargs' of
        Inl e \<Rightarrow> Inl e
      | Inr kw \<Rightarrow>
          if 3 \<le> triton_major_version self then call_kwargs kw (all_kwargs config)
          else (case call_kwargs kw (kwargs config) of
                  Inl e \<Rightarrow> Inl e
                | Inr kw' \<Rightarrow>
                    call_kwargs kw'
                      [(''num_stages'', IntV (num_stages config)),
                       (''num_warps'', IntV (num_warps config)),
                       (''num_ctas'', IntV (num_ctas config))]))"

fun est_timing ::
  "autotuner \<Rightarrow> (pydict \<Rightarrow> exn + rat) \<Rightarrow> pydict \<Rightarrow> pydict \<Rightarrow> config list \<Rightarrow> (config \<times> rat) list \<Rightarrow>
   exn + (config \<times> rat) list" where
  "est_timing self model nargs kwargs' [] acc = Inr acc"
| "est_timing self model nargs kwargs' (config # rest) acc =
     (case perf_model_kwargs self nargs kwargs' config of
        Inl e \<Rightarrow> Inl e
      | Inr kw \<Rightarrow>
          (case model kw of
             Inl e \<Rightarrow> Inl e
           | Inr est \<Rightarrow> est_timing self model nargs kwargs' rest (dict_set acc config est)))"

text \<open>
  \<^verbatim>\<open>Autotuner.prune_configs\<close> (lines 362-398). A float \<^verbatim>\<open>top_k\<close> above 1.0 stays a
  float, and slicing by it raises \<^verbatim>\<open>TypeError\<close>. \<^verbatim>\<open>sorted\<close> is stable, as
  \<^const>\<open>sort_key\<close> is.
\<close>

definition prune_configs :: "autotuner \<Rightarrow> pydict \<Rightarrow> pydict \<Rightarrow> exn + config list" where
  "prune_configs self nargs kwargs' =
     (case (case early_config_prune self of
              None \<Rightarrow> Inr (configs self)
            | Some prune \<Rightarrow> prune (configs self) nargs kwargs') of
        Inl e \<Rightarrow> Inl e
      | Inr pruned_configs \<Rightarrow>
          (case perf_model self of
             None \<Rightarrow> Inr pruned_configs
           | Some model \<Rightarrow>
               (let top_k = (case configs_top_k self of
                             TopFloat q \<Rightarrow>
                               if q \<le> 1 then TopInt (py_int (of_nat (length (configs self)) * q))
                               else TopFloat q
                           | TopInt k \<Rightarrow> TopInt k)
                in if (case top_k of
                         TopInt k \<Rightarrow> k < int (length pruned_configs)
                       | TopFloat q \<Rightarrow> q < of_nat (length pruned_configs))
                   then (case est_timing self model nargs kwargs' pruned_configs [] of
                           Inl e \<Rightarrow> Inl e
                         | Inr est \<Rightarrow>
                             (case top_k of
                                TopInt k \<Rightarrow> Inr (py_slice_to k (map fst (sort_key snd est)))
                              | TopFloat q \<Rightarrow>
                                  Inl (TypeError ''slice indices must be integers'')))
                   else Inr pruned_configs)))"

section \<open>Selection\<close>

text \<open>
  The comparison \<^verbatim>\<open><\<close> that \<^verbatim>\<open>min\<close> applies to two timings: floats by value, lists
  lexicographically; a float and a list do not compare.
\<close>

definition timing_lt :: "timing \<Rightarrow> timing \<Rightarrow> exn + bool" where
  "timing_lt s t =
     (case (s, t) of
        (Scalar a, Scalar b) \<Rightarrow> Inr (a < b)
      | (Quantiles a1 a2 a3, Quantiles b1 b2 b3) \<Rightarrow>
          Inr (a1 < b1 \<or> (a1 = b1 \<and> (a2 < b2 \<or> (a2 = b2 \<and> a3 < b3))))
      | _ \<Rightarrow> Inl (TypeError ''not supported between instances of float and list''))"

text \<open>
  \<^verbatim>\<open>builtins.min(timings, key=timings.get)\<close> (line 306): the keys are visited in the
  dict's order, and a key replaces the best so far only when its value is strictly less.
\<close>

fun min_loop :: "config \<times> timing \<Rightarrow> (config \<times> timing) list \<Rightarrow> exn + config" where
  "min_loop (best, t) [] = Inr best"
| "min_loop (best, t) ((c, t') # rest) =
     (case timing_lt t' t of
        Inl e \<Rightarrow> Inl e
      | Inr lt \<Rightarrow> if lt then min_loop (c, t') rest else min_loop (best, t) rest)"

definition py_min :: "(config \<times> timing) list \<Rightarrow> exn + config" where
  "py_min tm =
     (case tm of
        [] \<Rightarrow> Inl (ValueError ''min() arg is an empty sequence'')
      | p # rest \<Rightarrow> min_loop p rest)"

text \<open>
  The test of lines 308-310 on the winner's timing. A list never equals a float, and a
  float has no first element.
\<close>

definition all_failed :: "autotuner \<Rightarrow> timing \<Rightarrow> exn + bool" where
  "all_failed self t =
     (if use_cuda_graph self then Inr (t = Scalar \<infinity>)
      else (case t of
              Quantiles a b c \<Rightarrow> Inr (a = \<infinity>)
            | Scalar a \<Rightarrow> Inl (TypeError ''float object is not subscriptable'')))"

section \<open>Dispatch\<close>

text \<open>
  The dict comprehension of lines 300-303: the candidates are benchmarked in the order of
  the list, and an exception of \<^verbatim>\<open>_bench\<close> ends it.
\<close>

fun bench_all ::
  "autotuner \<Rightarrow> world \<Rightarrow> pydict \<Rightarrow> pyval list \<Rightarrow> pydict \<Rightarrow> config list \<Rightarrow> (config \<times> timing) list \<Rightarrow>
   state \<Rightarrow> (exn + (config \<times> timing) list) \<times> state" where
  "bench_all self w nargs args kwargs' [] tm st = (Inr tm, st)"
| "bench_all self w nargs args kwargs' (config # rest) tm st =
     (case bench self w nargs args config kwargs' st of
        (Inl e, st') \<Rightarrow> (Inl e, st')
      | (Inr t, st') \<Rightarrow> bench_all self w nargs args kwargs' rest (dict_set tm config t) st')"

text \<open>\<^verbatim>\<open>hasattr(arg, "dtype")\<close> and \<^verbatim>\<open>str(arg.dtype)\<close>.\<close>

definition dtype_str :: "pyval \<Rightarrow> pyval option" where
  "dtype_str v = (case v of TensorV a dt \<Rightarrow> Some (StrV dt) | _ \<Rightarrow> None)"

text \<open>
  Lines 285-294: the arguments that are present, in declaration order; the key is their
  values at the positions \<^verbatim>\<open>key_idx\<close>, followed by the element types.
\<close>

definition derive_key :: "autotuner \<Rightarrow> pydict \<Rightarrow> pydict \<Rightarrow> exn + pyval list" where
  "derive_key self nargs kwargs' =
     (let all_args = dict_update nargs kwargs';
          present = List.map_filter (map_of all_args) (arg_names self)
      in if list_ex (\<lambda>i. length present \<le> i) (key_idx self) then Inl IndexError
         else Inr (map (\<lambda>i. present ! i) (key_idx self) @ List.map_filter dtype_str present))"

text \<open>
  The first part of \<^verbatim>\<open>Autotuner.run\<close> (lines 281-318): it returns the configuration to
  dispatch with and the flag \<^verbatim>\<open>used_cached_result\<close>. The cache entry is written at
  line 306, before the test for total failure.
\<close>

definition run_select ::
  "autotuner \<Rightarrow> world \<Rightarrow> pyval list \<Rightarrow> pydict \<Rightarrow> state \<Rightarrow> (exn + config \<times> bool) \<times> state" where
  "run_select self w args kwargs' st =
     (let nargs = dict_of (zip (arg_names self) args) in
      if 1 < length (configs self) then
        (case derive_key self nargs kwargs' of
           Inl e \<Rightarrow> (Inl e, st)
         | Inr key \<Rightarrow>
             if \<not> dict_has (cache st) key then
               (case prune_configs self nargs kwargs' of
                  Inl e \<Rightarrow> (Inl e, st)
                | Inr pruned_configs \<Rightarrow>
               (case bench_all self w nargs args kwargs' pruned_configs [] st of
                  (Inl e, st1) \<Rightarrow> (Inl e, st1)
                | (Inr tm, st1) \<Rightarrow>
               (case py_min tm of
                  Inl e \<Rightarrow> (Inl e, st1)
                | Inr best \<Rightarrow>
               (let st2 = st1\<lparr>cache := dict_set (cache st1) key best\<rparr> in
                case dict_getitem tm best of
                  Inl e \<Rightarrow> (Inl e, st2)
                | Inr t \<Rightarrow>
               (let st3 = st2\<lparr>timings := dict_set (timings st2) key t\<rparr> in
                case all_failed self t of
                  Inl e \<Rightarrow> (Inl e, st3)
                | Inr failed \<Rightarrow>
                    if failed then (Inl (RuntimeError ''All autotune examples failed''), st3)
                    else
               (case pre_hook_fn self args True st3 of
                  (Inl e, st4) \<Rightarrow> (Inl e, st4)
                | (Inr u, st4) \<Rightarrow>
               (case dict_getitem (cache st4) key of
                  Inl e \<Rightarrow> (Inl e, st4)
                | Inr config \<Rightarrow> (Inr (config, False), st4))))))))
             else
               (case dict_getitem (cache st) key of
                  Inl e \<Rightarrow> (Inl e, st)
                | Inr config \<Rightarrow> (Inr (config, True), st)))
      else
        (case configs self of
           [] \<Rightarrow> (Inl IndexError, st)
         | config # rest \<Rightarrow> (Inr (config, True), st)))"

text \<open>
  The second part of \<^verbatim>\<open>Autotuner.run\<close> (lines 319-360): the store is given the cache
  and the timings after a benchmarking pass, then the configuration's pre-hook runs and the
  kernel is invoked with the call's keywords and the configuration's.
\<close>

definition run_dispatch ::
  "autotuner \<Rightarrow> world \<Rightarrow> pyval list \<Rightarrow> pydict \<Rightarrow> config \<Rightarrow> bool \<Rightarrow> state \<Rightarrow> (exn + pyval) \<times> state" where
  "run_dispatch self w args kwargs' config used_cached_result st =
     (let nargs = dict_of (zip (arg_names self) args);
          st1 = (if \<not> used_cached_result
                 then st\<lparr>store := store st @ [(cache st, timings st)]\<rparr> else st);
          full_nargs = dict_update (dict_update nargs kwargs') (kwargs config)
      in case call_config_pre_hook w config full_nargs st1 of
           (Inl e, st2) \<Rightarrow> (Inl e, st2)
         | (Inr u, st2) \<Rightarrow>
             (case (if 3 \<le> triton_major_version self
                    then call_kwargs kwargs' (all_kwargs config)
                    else (case call_kwargs (launch_kwargs config) kwargs' of
                            Inl e \<Rightarrow> Inl e
                          | Inr kw \<Rightarrow> call_kwargs kw (kwargs config))) of
                Inl e \<Rightarrow> (Inl e, st2)
              | Inr kw \<Rightarrow> invoke w (Production config) args kw st2))"

text \<open>\<^verbatim>\<open>Autotuner.run\<close> (lines 280-360).\<close>

definition run :: "autotuner \<Rightarrow> world \<Rightarrow> pyval list \<Rightarrow> pydict \<Rightarrow> state \<Rightarrow> (exn + pyval) \<times> state" where
  "run self w args kwargs' st =
     (case run_select self w args kwargs' st of
        (Inl e, st') \<Rightarrow> (Inl e, st')
      | (Inr (config, used_cached_result), st') \<Rightarrow>
          run_dispatch self w args kwargs' config used_cached_result st')"


section \<open>Construction\<close>

text \<open>\<^verbatim>\<open>list.index\<close> raises \<^verbatim>\<open>ValueError\<close> when the element is missing.\<close>

fun index_from :: "'a list \<Rightarrow> 'a \<Rightarrow> nat \<Rightarrow> exn + nat" where
  "index_from [] x i = Inl (ValueError ''is not in list'')"
| "index_from (y # ys) x i = (if y = x then Inr i else index_from ys x (Suc i))"

fun indices :: "name list \<Rightarrow> name list \<Rightarrow> exn + nat list" where
  "indices names [] = Inr []"
| "indices names (k # ks) =
     (case index_from names k 0 of
        Inl e \<Rightarrow> Inl e
      | Inr i \<Rightarrow> (case indices names ks of Inl e \<Rightarrow> Inl e | Inr rest \<Rightarrow> Inr (i # rest)))"

text \<open>
  The arguments of \<^verbatim>\<open>Autotuner.__init__\<close> that the model keeps. A list that may be
  None is an option; \<^verbatim>\<open>prune_configs_by\<close> is the dict's three entries, each of which may
  be missing.
\<close>

record autotuner_args =
  a_arg_names :: "name list"
  a_configs :: "config list option"
  a_key :: "name list"
  a_reset_to_zero :: "name list option"
  a_restore_value :: "name list option"
  a_pre_hook :: "(pyval list \<Rightarrow> bool \<Rightarrow> heap \<Rightarrow> (exn + unit) \<times> heap) option"
  a_post_hook :: "(pyval list \<Rightarrow> heap \<Rightarrow> (exn + unit) \<times> heap) option"
  a_perf_model :: "(pydict \<Rightarrow> exn + rat) option"
  a_top_k :: "top_k option"
  a_early_config_prune :: "(config list \<Rightarrow> pydict \<Rightarrow> pydict \<Rightarrow> exn + config list) option"
  a_use_cuda_graph :: bool
  a_config_space :: "config_space option"

text \<open>
  What \<^verbatim>\<open>__init__\<close> reads from outside: the Triton major version, whether CUDA is
  available, whether \<^verbatim>\<open>TRITON_DEJAVU_USE_ONLY_RESTORED\<close> is "1", and what the store
  returns from \<^verbatim>\<open>restore_autotuner_cache\<close> and \<^verbatim>\<open>get_used_configs\<close>.
\<close>

record init_env =
  env_triton_major_version :: nat
  env_cuda_available :: bool
  env_use_only_restored :: bool
  env_restored_cache :: "(pyval list \<times> config) list"
  env_used_configs :: "config list"

text \<open>Lines 80-89: the candidate list before the restriction to restored winners.\<close>

definition initial_configs :: "init_env \<Rightarrow> autotuner_args \<Rightarrow> exn + config list" where
  "initial_configs env a =
     (case a_config_space a of
        Some cs \<Rightarrow>
          (case a_configs a of
             Some (c # cs') \<Rightarrow> Inl AssertionError
           | _ \<Rightarrow> generate_config_list (env_triton_major_version env) cs)
      | None \<Rightarrow>
          (case a_configs a of
             Some (c # cs') \<Rightarrow> Inr (c # cs')
           | _ \<Rightarrow>
               Inr [\<lparr> kwargs = [], num_warps = 4, num_ctas = 1, num_stages = 2, maxnreg = None,
                      enable_warp_specialization = False, pre_hook = None \<rparr>]))"

text \<open>
  \<^verbatim>\<open>Autotuner.__init__\<close> (lines 64-182): the engine and the cache it starts with.
\<close>

definition Autotuner_init ::
  "init_env \<Rightarrow> autotuner_args \<Rightarrow> exn + autotuner \<times> (pyval list \<times> config) list" where
  "Autotuner_init env a =
     (case initial_configs env a of
        Inl e \<Rightarrow> Inl e
      | Inr cfgs \<Rightarrow>
     (case indices (a_arg_names a) (a_key a) of
        Inl e \<Rightarrow> Inl e
      | Inr kidx \<Rightarrow>
     (case (case a_reset_to_zero a of None \<Rightarrow> Inr [] | Some ks \<Rightarrow> indices (a_arg_names a) ks) of
        Inl e \<Rightarrow> Inl e
      | Inr zidx \<Rightarrow>
     (case (case a_restore_value a of None \<Rightarrow> Inr [] | Some ks \<Rightarrow> indices (a_arg_names a) ks) of
        Inl e \<Rightarrow> Inl e
      | Inr ridx \<Rightarrow>
          Inr (\<lparr> triton_major_version = env_triton_major_version env,
                 arg_names = a_arg_names a,
                 configs = (if env_use_only_restored env then env_used_configs env else cfgs),
                 key_idx = kidx,
                 reset_idx = zidx,
                 restore_idx = ridx,
                 custom_pre_hook = a_pre_hook a,
                 custom_post_hook = a_post_hook a,
                 perf_model = a_perf_model a,
                 configs_top_k = (case a_top_k a of None \<Rightarrow> TopFloat 1 | Some k \<Rightarrow> k),
                 early_config_prune = a_early_config_prune a,
                 use_cuda_graph =
                   (3 \<le> env_triton_major_version env \<and> a_use_cuda_graph a
                    \<and> env_cuda_available env) \<rparr>,
               env_restored_cache env)))))"

text \<open>The state a fresh engine starts in, over a given heap.\<close>

definition init_state :: "(pyval list \<times> config) list \<Rightarrow> heap \<Rightarrow> state" where
  "init_state restored h =
     \<lparr> cache = restored, timings = [], restore_copies = [], heap = h, trace = [], store = [] \<rparr>"

section \<open>Auxiliary notions for the statements\<close>

text \<open>
  The shape of a timing, and the shape a given engine produces: a float exactly in graph
  mode under Triton 3.
\<close>

fun is_scalar :: "timing \<Rightarrow> bool" where
  "is_scalar (Scalar a) = True"
| "is_scalar (Quantiles a b c) = False"

definition scalar_mode :: "autotuner \<Rightarrow> bool" where
  "scalar_mode self = (3 \<le> triton_major_version self \<and> use_cuda_graph self)"


text \<open>The buffer an argument refers to, if it is a tensor.\<close>

fun addr_of :: "pyval \<Rightarrow> nat option" where
  "addr_of (TensorV a dt) = Some a"
| "addr_of v = None"

section \<open>Examples\<close>

text \<open>
  The space of the specification's scenario, \<^verbatim>\<open>{"BLOCK": [16, 32]}\<close> with
  \<^verbatim>\<open>num_warps=[4, 8]\<close>, without a condition and with one that rejects
  \<^verbatim>\<open>BLOCK == 16\<close>.
\<close>

definition cs_plain :: config_space where
  "cs_plain =
     ConfigSpace_init 3 9 [(''BLOCK'', [IntV 16, IntV 32])] (Some [4, 8]) None None None None None"

definition cs_reject16 :: config_space where
  "cs_reject16 =
     ConfigSpace_init 3 9 [(''BLOCK'', [IntV 16, IntV 32])] (Some [4, 8]) None None None None
       (Some [\<lambda>kw. Inr (map_of kw ''BLOCK'' \<noteq> Some (IntV 16))])"

definition block_config :: "int \<Rightarrow> int \<Rightarrow> config" where
  "block_config b w =
     \<lparr> kwargs = [(''BLOCK'', IntV b)], num_warps = w, num_ctas = 1, num_stages = 2,
       maxnreg = None, enable_warp_specialization = False, pre_hook = None \<rparr>"

text \<open>
  An engine for a kernel \<^verbatim>\<open>kernel(x, n, BLOCK)\<close> with the key \<^verbatim>\<open>["n"]\<close> and two
  candidates, under Triton 3 in direct-timing mode, and the same under Triton 2.
\<close>

definition env3 :: init_env where
  "env3 = \<lparr> env_triton_major_version = 3, env_cuda_available = True,
            env_use_only_restored = False, env_restored_cache = [], env_used_configs = [] \<rparr>"

definition env2 :: init_env where
  "env2 = \<lparr> env_triton_major_version = 2, env_cuda_available = True,
            env_use_only_restored = False, env_restored_cache = [], env_used_configs = [] \<rparr>"

definition tuner_args :: "config list \<Rightarrow> autotuner_args" where
  "tuner_args cfgs =
     \<lparr> a_arg_names = [''x'', ''n'', ''BLOCK''], a_configs = Some cfgs, a_key = [''n''],
       a_reset_to_zero = None, a_restore_value = None, a_pre_hook = None, a_post_hook = None,
       a_perf_model = None, a_top_k = None, a_early_config_prune = None,
       a_use_cuda_graph = False, a_config_space = None \<rparr>"

definition tuner_of :: "nat \<Rightarrow> config list \<Rightarrow> autotuner" where
  "tuner_of ver cfgs =
     \<lparr> triton_major_version = ver, arg_names = [''x'', ''n'', ''BLOCK''], configs = cfgs,
       key_idx = [1], reset_idx = [], restore_idx = [], custom_pre_hook = None,
       custom_post_hook = None, perf_model = None, configs_top_k = TopFloat 1,
       early_config_prune = None, use_cuda_graph = False \<rparr>"

definition tuner :: autotuner where
  "tuner = tuner_of 3 [block_config 16 4, block_config 32 4]"

text \<open>A call \<^verbatim>\<open>kernel(x, 100)\<close> with a float32 tensor at address 0, and its cache key.\<close>

definition args100 :: "pyval list" where
  "args100 = [TensorV 0 ''torch.float32'', IntV 100]"

definition key100 :: "pyval list" where
  "key100 = [IntV 100, StrV ''torch.float32'']"

definition st0 :: state where
  "st0 = init_state [] (\<lambda>a. [])"

text \<open>
  Environments. In each the harness makes two calls. \<open>w_tie\<close>: the kernel succeeds and
  the two candidates tie on the median. \<open>w_oor\<close>: the kernel always raises
  \<^verbatim>\<open>OutOfResources\<close>. \<open>w_abort\<close>: the kernel raises another exception for
  \<^verbatim>\<open>BLOCK == 32\<close>. \<open>w_hook\<close>: the pre-hook of a configuration raises
  \<^verbatim>\<open>CompileTimeAssertionFailure\<close>.
\<close>

definition w_tie :: world where
  "w_tie =
     \<lparr> fn_run = (\<lambda>t args kw h. (Inr (IntV 0), h)),
       config_pre_hook = (\<lambda>t i kw h. (Inr (), h)),
       harness_calls = (\<lambda>t c. 2),
       measured_quantiles =
         (\<lambda>t c. Inr (if c = block_config 16 4 then (10, 9, 12) else (10, 8, 11))),
       measured_median = (\<lambda>t c. Inr 10) \<rparr>"

definition w_oor :: world where
  "w_oor = w_tie\<lparr> fn_run := (\<lambda>t args kw h. (Inl OutOfResources, h)) \<rparr>"


definition w_hook :: world where
  "w_hook = w_tie\<lparr> config_pre_hook := (\<lambda>t i kw h. (Inl CompileTimeAssertionFailure, h)) \<rparr>"

text \<open>A candidate that carries a pre-hook, and an engine under Triton 2 that has it.\<close>

definition hooked_config :: config where
  "hooked_config = (block_config 16 4)\<lparr> pre_hook := Some 0 \<rparr>"

definition tuner_v2 :: autotuner where
  "tuner_v2 = tuner_of 2 [hooked_config, block_config 32 4]"

text \<open>
  A space in which the condition rejects every combination, and the engine built from it.
\<close>

definition cs_none :: config_space where
  "cs_none =
     ConfigSpace_init 3 9 [(''BLOCK'', [IntV 16, IntV 32])] (Some [4, 8]) None None None None
       (Some [\<lambda>kw. Inr False])"

definition tuner_none_args :: autotuner_args where
  "tuner_none_args = (tuner_args [])\<lparr> a_configs := None, a_config_space := Some cs_none \<rparr>"




text \<open>A candidate whose tunable parameter is \<^verbatim>\<open>TILE\<close>.\<close>

definition tile_config :: config where
  "tile_config =
     \<lparr> kwargs = [(''TILE'', IntV 4)], num_warps = 4, num_ctas = 1, num_stages = 2,
       maxnreg = None, enable_warp_specialization = False, pre_hook = None \<rparr>"

text \<open>
  \<open>w_assert\<close>: the kernel succeeds and the harness raises \<^verbatim>\<open>AssertionError\<close> for every
  candidate. A second call \<^verbatim>\<open>kernel(x, 200)\<close>.
\<close>

definition w_assert :: world where
  "w_assert = w_tie\<lparr> measured_quantiles := (\<lambda>t c. Inl AssertionError) \<rparr>"

definition args200 :: "pyval list" where
  "args200 = [TensorV 0 ''torch.float32'', IntV 200]"

text \<open>
  An engine for a kernel \<^verbatim>\<open>kernel(BLOCK, n, m)\<close>, whose tunable parameter is declared
  first, with the key \<^verbatim>\<open>["n"]\<close>; it is called as \<^verbatim>\<open>kernel(n=..., m=...)\<close>.
\<close>

definition shifted_args :: autotuner_args where
  "shifted_args =
     (tuner_args [block_config 16 4, block_config 32 4])\<lparr> a_arg_names := [''BLOCK'', ''n'', ''m''] \<rparr>"

definition shifted_tuner :: autotuner where
  "shifted_tuner =
     (tuner_of 3 [block_config 16 4, block_config 32 4])\<lparr> arg_names := [''BLOCK'', ''n'', ''m''] \<rparr>"

text \<open>
  An engine for a kernel \<^verbatim>\<open>kernel(acc, out, n, BLOCK)\<close> with
  \<^verbatim>\<open>reset_to_zero=["acc"]\<close> and \<^verbatim>\<open>restore_value=["out"]\<close>. In \<open>w_inc\<close> the kernel
  raises \<^verbatim>\<open>OutOfResources\<close> for \<^verbatim>\<open>BLOCK == 16\<close> and otherwise adds one to every
  element of every buffer. The call passes \<^verbatim>\<open>acc\<close> at address 0, holding
  \<^verbatim>\<open>[5, 5]\<close>, and \<^verbatim>\<open>out\<close> at address 1, holding \<^verbatim>\<open>[7, 7]\<close>.
\<close>

definition hook_args :: autotuner_args where
  "hook_args =
     (tuner_args [block_config 16 4, block_config 32 4])
       \<lparr> a_arg_names := [''acc'', ''out'', ''n'', ''BLOCK''],
         a_reset_to_zero := Some [''acc''], a_restore_value := Some [''out''] \<rparr>"

definition hook_tuner :: autotuner where
  "hook_tuner =
     (tuner_of 3 [block_config 16 4, block_config 32 4])
       \<lparr> arg_names := [''acc'', ''out'', ''n'', ''BLOCK''], key_idx := [2],
         reset_idx := [0], restore_idx := [1] \<rparr>"

definition w_inc :: world where
  "w_inc =
     w_tie\<lparr> fn_run := (\<lambda>t args kw h.
       if map_of kw ''BLOCK'' = Some (IntV 16) then (Inl OutOfResources, h)
       else (Inr (IntV 0), \<lambda>a. map (\<lambda>x. x + 1) (h a))) \<rparr>"

definition acc_out_args :: "pyval list" where
  "acc_out_args = [TensorV 0 ''torch.float32'', TensorV 1 ''torch.float32'', IntV 100]"

definition st57 :: state where
  "st57 = init_state [] ((\<lambda>a. [])(0 := [5, 5], 1 := [7, 7]))"

text \<open>
  \<open>w_oor100\<close>: the kernel raises \<^verbatim>\<open>OutOfResources\<close> when \<^verbatim>\<open>n == 100\<close> and succeeds
  otherwise. The cache key of the call \<^verbatim>\<open>kernel(x, 200)\<close>.
\<close>

definition w_oor100 :: world where
  "w_oor100 =
     w_tie\<lparr> fn_run := (\<lambda>t args kw h.
       if arg_at args 1 = Inr (IntV 100) then (Inl OutOfResources, h) else (Inr (IntV 0), h)) \<rparr>"

definition key200 :: "pyval list" where
  "key200 = [IntV 200, StrV ''torch.float32'']"

section \<open>Properties of ConfigSpace\<close>

lemma check_conditions_Inr:
  "check_conditions conds kwarg app = Inr b \<Longrightarrow>
   b = (app \<and> list_all (\<lambda>condition. condition kwarg = Inr True) conds)"
  by (induction conds arbitrary: app) (auto split: sum.splits if_splits)

lemma check_conditions_total:
  "list_all (\<lambda>condition. \<not> isl (condition kwarg)) conds \<Longrightarrow>
   \<exists>b. check_conditions conds kwarg app = Inr b"
proof (induction conds arbitrary: app)
  case Nil
  then show ?case by simp
next
  case (Cons condition rest)
  then obtain b where "condition kwarg = Inr b"
    by (cases "condition kwarg") auto
  with Cons show ?case by simp
qed

lemma filter_kwarg_lists_Inr:
  "filter_kwarg_lists conds kws = Inr kept \<Longrightarrow>
   kept = filter (\<lambda>kwarg. list_all (\<lambda>condition. condition kwarg = Inr True) conds) kws"
proof (induction kws arbitrary: kept)
  case Nil
  then show ?case by simp
next
  case (Cons kwarg rest)
  from Cons.prems obtain app kept' where
    c: "check_conditions conds kwarg True = Inr app" and
    r: "filter_kwarg_lists conds rest = Inr kept'" and
    k: "kept = (if app then kwarg # kept' else kept')"
    by (auto split: sum.splits)
  from check_conditions_Inr [OF c] Cons.IH [OF r] k show ?case by simp
qed

lemma filter_kwarg_lists_total:
  "list_all (\<lambda>kwarg. list_all (\<lambda>condition. \<not> isl (condition kwarg)) conds) kws \<Longrightarrow>
   \<exists>kept. filter_kwarg_lists conds kws = Inr kept"
proof (induction kws)
  case Nil
  then show ?case by simp
next
  case (Cons kwarg rest)
  then obtain kept where r: "filter_kwarg_lists conds rest = Inr kept" by auto
  from Cons.prems obtain b where "check_conditions conds kwarg True = Inr b"
    using check_conditions_total [of kwarg conds True] by auto
  with r show ?case by simp
qed

lemma length_config_product: "length (config_product ver cs) = launch_combinations ver cs"
  by (simp add: config_product_def launch_combinations_def)

lemma length_kwarg_lists_complete:
  "length (kwarg_lists_complete cs) = foldr (*) (map (\<lambda>(k, vs). length vs) (cs_kwargs cs)) 1"
proof -
  have "map length (map snd kvs) = map (\<lambda>(k, vs). length vs) kvs"
    for kvs :: "(name \<times> pyval list) list"
    by (induction kvs) auto
  then show ?thesis
    by (simp only: kwarg_lists_complete_def length_map length_product_lists)
qed

text \<open>
  C4. Whenever \<^verbatim>\<open>generate_config_list\<close> returns, the list has as many members as there
  are kwarg combinations accepted by all conditions, times the launch combinations; it
  returns whenever no condition raises; and with no condition the length is the full
  cross-product cardinality, the product of the lengths of all kwarg lists times the
  product of the lengths of the launch lists.
\<close>

theorem generate_config_list_length:
  "(\<forall>cfgs. generate_config_list ver cs = Inr cfgs \<longrightarrow>
      length cfgs = length (filter (accepted cs) (kwarg_lists_complete cs))
                    * launch_combinations ver cs)
   \<and> (no_condition_raises cs \<longrightarrow> (\<exists>cfgs. generate_config_list ver cs = Inr cfgs))
   \<and> (kwarg_conditions cs = [] \<longrightarrow>
      (\<exists>cfgs. generate_config_list ver cs = Inr cfgs
         \<and> length cfgs = foldr (*) (map (\<lambda>(k, vs). length vs) (cs_kwargs cs)) 1
                         * launch_combinations ver cs))"
proof (intro conjI allI impI)
  fix cfgs
  assume g: "generate_config_list ver cs = Inr cfgs"
  then obtain kwarg_lists where
    f: "filter_kwarg_lists (kwarg_conditions cs) (kwarg_lists_complete cs) = Inr kwarg_lists"
    and c: "cfgs = map (make_config cs) (List.product kwarg_lists (config_product ver cs))"
    by (auto simp: generate_config_list_def split: sum.splits)
  have "kwarg_lists = filter (accepted cs) (kwarg_lists_complete cs)"
    using filter_kwarg_lists_Inr [OF f] by (simp add: accepted_def [abs_def])
  with c show "length cfgs = length (filter (accepted cs) (kwarg_lists_complete cs))
                    * launch_combinations ver cs"
    by (simp add: length_config_product)
next
  assume "no_condition_raises cs"
  then obtain kept where
    "filter_kwarg_lists (kwarg_conditions cs) (kwarg_lists_complete cs) = Inr kept"
    using filter_kwarg_lists_total unfolding no_condition_raises_def by blast
  then show "\<exists>cfgs. generate_config_list ver cs = Inr cfgs"
    by (simp add: generate_config_list_def)
next
  assume e: "kwarg_conditions cs = []"
  have "filter_kwarg_lists [] kws = Inr kws" for kws
    by (induction kws) auto
  with e have "generate_config_list ver cs =
      Inr (map (make_config cs) (List.product (kwarg_lists_complete cs) (config_product ver cs)))"
    by (simp add: generate_config_list_def)
  then show "\<exists>cfgs. generate_config_list ver cs = Inr cfgs
         \<and> length cfgs = foldr (*) (map (\<lambda>(k, vs). length vs) (cs_kwargs cs)) 1
                         * launch_combinations ver cs"
    by (simp add: length_config_product length_kwarg_lists_complete)
qed

theorem generate_config_list_length_witness:
  "generate_config_list 3 cs_reject16 = Inr [block_config 32 4, block_config 32 8]
   \<and> length (filter (accepted cs_reject16) (kwarg_lists_complete cs_reject16)) = 1
   \<and> launch_combinations 3 cs_reject16 = 2
   \<and> no_condition_raises cs_reject16
   \<and> kwarg_conditions cs_plain = []
   \<and> (\<exists>cfgs. generate_config_list 3 cs_plain = Inr cfgs \<and> length cfgs = 2 * 2)"
proof -
  have g: "generate_config_list 3 cs_reject16 = Inr [block_config 32 4, block_config 32 8]"
    by (simp add: generate_config_list_def cs_reject16_def ConfigSpace_init_def
        kwarg_lists_complete_def dict_of_def dict_update_def config_product_def
        make_config_def block_config_def)
  have l: "launch_combinations 3 cs_reject16 = 2" "launch_combinations 3 cs_plain = 2"
    by (simp_all add: launch_combinations_def cs_reject16_def cs_plain_def ConfigSpace_init_def)
  have n: "no_condition_raises cs_reject16"
    by (simp add: no_condition_raises_def cs_reject16_def ConfigSpace_init_def
        kwarg_lists_complete_def dict_of_def dict_update_def)
  have e: "kwarg_conditions cs_plain = []"
    by (simp add: cs_plain_def ConfigSpace_init_def)
  have k: "foldr (*) (map (\<lambda>(k, vs). length vs) (cs_kwargs cs_plain)) 1 = 2"
    by (simp add: cs_plain_def ConfigSpace_init_def)
  from generate_config_list_length [of 3 cs_reject16] g l
  have "length (filter (accepted cs_reject16) (kwarg_lists_complete cs_reject16)) = 1"
    by simp
  moreover from generate_config_list_length [of 3 cs_plain] e k l
  have "\<exists>cfgs. generate_config_list 3 cs_plain = Inr cfgs \<and> length cfgs = 2 * 2"
    by simp
  ultimately show ?thesis using g l n e by simp
qed

section \<open>Properties of the engine\<close>

subsection \<open>Dictionaries\<close>

lemma map_of_dict_set: "map_of (dict_set d k v) = (map_of d)(k \<mapsto> v)"
  by (induction d) (auto simp: fun_eq_iff)

lemma dict_set_not_Nil: "dict_set d k v \<noteq> []"
  by (cases d) (auto split: if_splits)

lemma keys_dict_set:
  "map fst (dict_set d k v) = (if k \<in> set (map fst d) then map fst d else map fst d @ [k])"
  by (induction d) (auto split: if_splits)


lemma set_dict_set: "(c, t) \<in> set (dict_set d k v) \<Longrightarrow> (c, t) \<in> set d \<or> (c = k \<and> t = v)"
  by (induction d) (auto split: if_splits)

subsection \<open>What the hooks and the kernel leave alone\<close>

lemma benches_append: "benches (xs @ ys) = benches xs @ benches ys"
  by (induction xs rule: benches.induct) auto

lemma pre_hook_fn_frame:
  "pre_hook_fn self args ro st = (r, st') \<Longrightarrow>
   cache st' = cache st \<and> timings st' = timings st \<and> store st' = store st \<and> trace st' = trace st"
  by (auto simp: pre_hook_fn_def split: option.splits prod.splits sum.splits if_splits)

lemma post_hook_fn_frame:
  "post_hook_fn self args st = (r, st') \<Longrightarrow>
   cache st' = cache st \<and> timings st' = timings st \<and> store st' = store st \<and> trace st' = trace st"
  by (auto simp: post_hook_fn_def split: option.splits prod.splits sum.splits if_splits)

lemma call_config_pre_hook_frame:
  "call_config_pre_hook w c kw st = (r, st') \<Longrightarrow>
   cache st' = cache st \<and> timings st' = timings st \<and> store st' = store st \<and> trace st' = trace st"
  by (auto simp: call_config_pre_hook_def split: option.splits prod.splits)

lemma invoke_frame:
  "invoke w ev args kw st = (r, st') \<Longrightarrow>
   cache st' = cache st \<and> timings st' = timings st \<and> store st' = store st
   \<and> trace st' = trace st @ [ev]"
  by (auto simp: invoke_def split: prod.splits)

lemma kernel_call_frame:
  assumes "kernel_call self w args c cur full st = (r, st')"
  shows "cache st' = cache st \<and> timings st' = timings st \<and> store st' = store st
         \<and> benches (trace st') = benches (trace st)"
  using assms
  by (auto simp: kernel_call_def benches_append split: prod.splits sum.splits
      dest!: pre_hook_fn_frame post_hook_fn_frame call_config_pre_hook_frame invoke_frame)

lemma repeat_call_frame:
  assumes "\<And>s r s'. f s = (r, s') \<Longrightarrow>
             cache s' = cache s \<and> timings s' = timings s \<and> store s' = store s
             \<and> benches (trace s') = benches (trace s)"
      and "repeat_call n f st = (r, st')"
  shows "cache st' = cache st \<and> timings st' = timings st \<and> store st' = store st
         \<and> benches (trace st') = benches (trace st)"
  using assms(2)
proof (induction n arbitrary: st)
  case 0
  then show ?case by simp
next
  case (Suc n)
  obtain r1 s1 where f: "f st = (r1, s1)" by (cases "f st")
  note fr = assms(1) [OF f]
  show ?case
  proof (cases r1)
    case (Inl e)
    with Suc.prems f fr show ?thesis by simp
  next
    case (Inr u)
    with Suc.prems f have "repeat_call n f s1 = (r, st')" by simp
    from Suc.IH [OF this] fr show ?thesis by simp
  qed
qed

lemma bench_try_frame:
  assumes "bench_try self w nargs args c meta st = (r, st')"
  shows "cache st' = cache st \<and> timings st' = timings st \<and> store st' = store st
         \<and> benches (trace st') = benches (trace st) @ [c]"
proof -
  let ?f = "kernel_call self w args c (dict_update meta (all_kwargs c))
              (dict_update nargs (dict_update meta (all_kwargs c)))"
  let ?st0 = "st\<lparr>trace := trace st @ [Bench c]\<rparr>"
  obtain r1 s1 where rc: "repeat_call (harness_calls w (length (trace st)) c) ?f ?st0 = (r1, s1)"
    by (cases "repeat_call (harness_calls w (length (trace st)) c) ?f ?st0")
  have fr: "cache s1 = cache ?st0 \<and> timings s1 = timings ?st0 \<and> store s1 = store ?st0
         \<and> benches (trace s1) = benches (trace ?st0)"
    by (rule repeat_call_frame [OF _ rc]) (rule kernel_call_frame)
  have st': "st' = s1"
    using assms rc
    by (auto simp: bench_try_def do_bench_def do_bench_cudagraph_def Let_def
        split: if_splits sum.splits prod.splits)
  with fr show ?thesis by (simp add: benches_append)
qed

lemma bench_try_shape:
  assumes "bench_try self w nargs args c meta st = (Inr t, st')"
  shows "is_scalar t = scalar_mode self \<and> t \<noteq> sentinel self"
  using assms
  by (auto simp: bench_try_def do_bench_def do_bench_cudagraph_def Let_def scalar_mode_def
      sentinel_def split: if_splits sum.splits prod.splits)

lemma is_scalar_sentinel: "is_scalar (sentinel self) = scalar_mode self"
  by (simp add: sentinel_def scalar_mode_def)

lemma bench_frame:
  assumes "bench self w nargs args c meta st = (r, st')"
  shows "cache st' = cache st \<and> timings st' = timings st \<and> store st' = store st"
  using assms
  by (auto simp: bench_def split: if_splits prod.splits sum.splits dest!: bench_try_frame)

lemma bench_Inr:
  assumes "bench self w nargs args c meta st = (Inr t, st')"
  shows "benches (trace st') = benches (trace st) @ [c] \<and> is_scalar t = scalar_mode self
         \<and> \<not> list_ex (\<lambda>k. k \<in> set (dict_keys (kwargs c))) (dict_keys meta)"
proof -
  have nc: "\<not> list_ex (\<lambda>k. k \<in> set (dict_keys (kwargs c))) (dict_keys meta)"
    using assms by (auto simp: bench_def split: if_splits)
  obtain r1 s1 where bt: "bench_try self w nargs args c meta st = (r1, s1)"
    by (cases "bench_try self w nargs args c meta st")
  from assms nc bt have s1: "st' = s1"
    by (auto simp: bench_def split: sum.splits if_splits)
  have sh: "is_scalar t = scalar_mode self"
  proof (cases r1)
    case (Inl e)
    with assms nc bt have "t = sentinel self"
      by (auto simp: bench_def split: if_splits)
    then show ?thesis by (simp add: is_scalar_sentinel)
  next
    case (Inr t')
    with assms nc bt have "t = t'" by (auto simp: bench_def)
    with bench_try_shape [OF bt [unfolded Inr]] show ?thesis by simp
  qed
  from bench_try_frame [OF bt] s1 sh nc show ?thesis by simp
qed

lemma bench_all_frame:
  "bench_all self w nargs args meta cs tm st = (r, st') \<Longrightarrow>
   cache st' = cache st \<and> timings st' = timings st \<and> store st' = store st"
proof (induction cs arbitrary: tm st)
  case Nil
  then show ?case by simp
next
  case (Cons c cs)
  obtain r1 s1 where b: "bench self w nargs args c meta st = (r1, s1)"
    by (cases "bench self w nargs args c meta st")
  show ?case
  proof (cases r1)
    case (Inl e)
    with Cons.prems b bench_frame [OF b] show ?thesis by simp
  next
    case (Inr t)
    with Cons.prems b have "bench_all self w nargs args meta cs (dict_set tm c t) s1 = (r, st')"
      by simp
    from Cons.IH [OF this] bench_frame [OF b] show ?thesis by simp
  qed
qed

lemma bench_all_Inr:
  "bench_all self w nargs args meta cs tm st = (Inr tm', st') \<Longrightarrow>
   list_all (\<lambda>p. is_scalar (snd p) = scalar_mode self) tm \<Longrightarrow>
   benches (trace st') = benches (trace st) @ cs
   \<and> list_all (\<lambda>p. is_scalar (snd p) = scalar_mode self) tm'
   \<and> (tm \<noteq> [] \<or> cs \<noteq> [] \<longrightarrow> tm' \<noteq> [])
   \<and> set (map fst tm') = set (map fst tm) \<union> set cs
   \<and> (distinct (map fst tm @ cs) \<longrightarrow> map fst tm' = map fst tm @ cs)"
proof (induction cs arbitrary: tm st)
  case Nil
  then show ?case by simp
next
  case (Cons c cs)
  obtain r1 s1 where b: "bench self w nargs args c meta st = (r1, s1)"
    by (cases "bench self w nargs args c meta st")
  show ?case
  proof (cases r1)
    case (Inl e)
    with Cons.prems b show ?thesis by simp
  next
    case (Inr t)
    with Cons.prems b have ba: "bench_all self w nargs args meta cs (dict_set tm c t) s1 = (Inr tm', st')"
      by simp
    from bench_Inr [OF b [unfolded Inr]]
    have bt: "benches (trace s1) = benches (trace st) @ [c]" and sh: "is_scalar t = scalar_mode self"
      by simp_all
    have u: "list_all (\<lambda>p. is_scalar (snd p) = scalar_mode self) (dict_set tm c t)"
      using Cons.prems(2) sh by (auto simp: list_all_iff dest!: set_dict_set)
    note ih = Cons.IH [OF ba u]
    have 1: "benches (trace st') = benches (trace st) @ c # cs"
      using ih bt by simp
    have 2: "tm' \<noteq> []" using ih by (simp add: dict_set_not_Nil)
    have 3: "set (map fst tm') = set (map fst tm) \<union> set (c # cs)"
      using ih by (auto simp: keys_dict_set split: if_splits)
    have 4: "map fst tm' = map fst tm @ c # cs" if d: "distinct (map fst tm @ c # cs)"
    proof -
      from d have "map fst (dict_set tm c t) = map fst tm @ [c]"
        by (auto simp: keys_dict_set)
      with d ih show ?thesis by simp
    qed
    from ih 1 2 3 4 show ?thesis by blast
  qed
qed

subsection \<open>Selection\<close>





section \<open>Evaluating the examples\<close>

lemma repeat_call_numeral:
  "repeat_call (numeral k) f st =
     (case f st of
        (Inl e, st') \<Rightarrow> (Inl e, st')
      | (Inr u, st') \<Rightarrow> repeat_call (pred_numeral k) f st')"
  by (simp add: numeral_eq_Suc)

lemmas ev_defs = repeat_call_numeral run_def run_select_def run_dispatch_def Let_def
    derive_key_def dict_of_def dict_update_def List.map_filter_def dtype_str_def dict_has_def prune_configs_def
    bench_def bench_try_def block_config_def dict_keys_def all_kwargs_def do_bench_def kernel_call_def call_config_pre_hook_def
    pre_hook_fn_def post_hook_fn_def invoke_def py_min_def timing_lt_def dict_getitem_def all_failed_def call_kwargs_def
    caught_def sentinel_def launch_kwargs_def
    tuner_def tuner_of_def st0_def init_state_def args100_def key100_def


lemma init_tuner_none: "Autotuner_init env3 tuner_none_args = Inr (tuner_of 3 [], [])"
  by (simp add: Autotuner_init_def initial_configs_def env3_def tuner_args_def tuner_none_args_def tuner_of_def
    generate_config_list_def cs_none_def ConfigSpace_init_def kwarg_lists_complete_def dict_of_def dict_update_def)

lemma init_tuner_v2:
  "Autotuner_init env2 (tuner_args [hooked_config, block_config 32 4]) = Inr (tuner_v2, [])"
  by (simp add: Autotuner_init_def initial_configs_def env2_def tuner_args_def tuner_of_def
      tuner_v2_def)

section \<open>The claims on dispatch\<close>

text \<open>
  C10. If the configuration list of the engine is empty, dispatch raises no error of its
  own for that: it takes the branch of the single configuration and fails with
  \<^verbatim>\<open>IndexError\<close> on \<^verbatim>\<open>self.configs[0]\<close>, leaving the state as it was (nothing is
  benchmarked, cached, stored or invoked). The list is empty when the configuration space
  generates no configuration, or when the engine is restricted to restored winners and
  the store lists none.
\<close>

theorem run_empty_configs:
  "(configs self = [] \<longrightarrow> run self w args kwargs' st = (Inl IndexError, st))
   \<and> (Autotuner_init env a = Inr (self', restored)
      \<and> ((\<not> env_use_only_restored env \<and> a_config_space a = Some cs
           \<and> generate_config_list (env_triton_major_version env) cs = Inr [])
          \<or> (env_use_only_restored env \<and> env_used_configs env = []))
      \<longrightarrow> configs self' = [])"
  by (auto simp: run_def run_select_def Autotuner_init_def initial_configs_def
      split: sum.splits option.splits list.splits if_splits)

theorem run_empty_configs_witness:
  "Autotuner_init env3 tuner_none_args = Inr (tuner_of 3 [], [])
   \<and> \<not> env_use_only_restored env3 \<and> a_config_space tuner_none_args = Some cs_none
   \<and> generate_config_list (env_triton_major_version env3) cs_none = Inr []
   \<and> configs (tuner_of 3 []) = []
   \<and> run (tuner_of 3 []) w_tie args100 [] st0 = (Inl IndexError, st0)"
proof -
  have g: "generate_config_list (env_triton_major_version env3) cs_none = Inr []"
    by (simp add: generate_config_list_def cs_none_def ConfigSpace_init_def
        kwarg_lists_complete_def dict_of_def dict_update_def env3_def)
  have a: "\<not> env_use_only_restored env3" "a_config_space tuner_none_args = Some cs_none"
    by (simp_all add: env3_def tuner_none_args_def)
  from run_empty_configs [of "tuner_of 3 []" w_tie args100 "[]" st0 env3 tuner_none_args
      "tuner_of 3 []" "[]" cs_none] init_tuner_none g a
  show ?thesis by simp
qed

text \<open>
  C6, as amended. For a candidate whose parameters do not collide with the call's keywords,
  \<^verbatim>\<open>_bench\<close> returns what the \<^verbatim>\<open>try\<close> body returns, and when the body raises it
  returns the failure sentinel exactly for \<^verbatim>\<open>OutOfResources\<close>, for
  \<^verbatim>\<open>AssertionError\<close> and, under Triton 3 and later only, for
  \<^verbatim>\<open>CompileTimeAssertionFailure\<close>; every other exception propagates, and under Triton 2
  that includes \<^verbatim>\<open>CompileTimeAssertionFailure\<close>. The sentinel is infinity as a float in
  graph mode under Triton 3, and the list of three infinities otherwise; a measurement is
  never the sentinel.
\<close>

theorem bench_failure_policy:
  assumes "\<not> list_ex (\<lambda>k. k \<in> set (dict_keys (kwargs config))) (dict_keys meta)"
      and "bench_try self w nargs args config meta st = (r, st')"
  shows "bench self w nargs args config meta st =
           (case r of
              Inr t \<Rightarrow> (Inr t, st')
            | Inl e \<Rightarrow>
                if e = OutOfResources \<or> e = AssertionError
                   \<or> (3 \<le> triton_major_version self \<and> e = CompileTimeAssertionFailure)
                then (Inr (sentinel self), st') else (Inl e, st'))
         \<and> (fst (bench self w nargs args config meta st) = Inr (sentinel self)
              = (\<exists>e. r = Inl e
                   \<and> (e = OutOfResources \<or> e = AssertionError
                      \<or> (3 \<le> triton_major_version self \<and> e = CompileTimeAssertionFailure))))
         \<and> sentinel self =
             (if 3 \<le> triton_major_version self \<and> use_cuda_graph self then Scalar \<infinity>
              else Quantiles \<infinity> \<infinity> \<infinity>)"
proof (cases r)
  case (Inl e)
  with assms show ?thesis
    by (auto simp: bench_def caught_def sentinel_def)
next
  case (Inr t)
  with assms(2) have "t \<noteq> sentinel self" using bench_try_shape by blast
  with Inr assms show ?thesis
    by (auto simp: bench_def sentinel_def)
qed

theorem bench_failure_policy_witness:
  "\<not> list_ex (\<lambda>k. k \<in> set (dict_keys (kwargs (block_config 16 4)))) (dict_keys [])
   \<and> fst (bench_try tuner w_oor [] args100 (block_config 16 4) [] st0) = Inl OutOfResources
   \<and> fst (bench tuner w_oor [] args100 (block_config 16 4) [] st0) = Inr (Quantiles \<infinity> \<infinity> \<infinity>)
   \<and> sentinel tuner = Quantiles \<infinity> \<infinity> \<infinity>"
proof -
  have nc: "\<not> list_ex (\<lambda>k. k \<in> set (dict_keys (kwargs (block_config 16 4)))) (dict_keys [])"
    by (simp add: dict_keys_def)
  have r: "fst (bench_try tuner w_oor [] args100 (block_config 16 4) [] st0) = Inl OutOfResources"
    by (simp add: ev_defs w_oor_def w_tie_def)
  have v: "3 \<le> triton_major_version tuner" "\<not> use_cuda_graph tuner"
    by (simp_all add: tuner_def tuner_of_def)
  from bench_failure_policy [OF nc surjective_pairing, of tuner w_oor "[]" args100 st0] r v nc
  show ?thesis by simp
qed

text \<open>
  The claim as stated fails under Triton 2: there the pre-hook of a configuration raises
  \<^verbatim>\<open>CompileTimeAssertionFailure\<close> inside the harness call, and \<^verbatim>\<open>_bench\<close> lets it
  propagate instead of returning the sentinel.
\<close>

theorem bench_failure_policy_counterexample:
  "Autotuner_init env2 (tuner_args [hooked_config, block_config 32 4]) = Inr (tuner_v2, [])
   \<and> fst (bench_try tuner_v2 w_hook (dict_of (zip (arg_names tuner_v2) args100)) args100
          hooked_config [] st0) = Inl CompileTimeAssertionFailure
   \<and> fst (bench tuner_v2 w_hook (dict_of (zip (arg_names tuner_v2) args100)) args100
          hooked_config [] st0) = Inl CompileTimeAssertionFailure
   \<and> fst (run tuner_v2 w_hook args100 [] st0) = Inl CompileTimeAssertionFailure"
  by (simp add: init_tuner_v2)
     (simp add: ev_defs tuner_v2_def hooked_config_def w_hook_def w_tie_def)

section \<open>Selection, total failure and conflicts\<close>










lemma run_select_miss:
  assumes "1 < length (configs self)"
      and "derive_key self (dict_of (zip (arg_names self) args)) kwargs' = Inr key"
      and "\<not> dict_has (cache st) key"
      and "prune_configs self (dict_of (zip (arg_names self) args)) kwargs' = Inr pruned"
      and "bench_all self w (dict_of (zip (arg_names self) args)) args kwargs' pruned [] st
             = (r, st1)"
  shows "run_select self w args kwargs' st =
           (case r of
              Inl e \<Rightarrow> (Inl e, st1)
            | Inr tm \<Rightarrow>
                (case py_min tm of
                   Inl e \<Rightarrow> (Inl e, st1)
                 | Inr best \<Rightarrow>
                     (case dict_getitem tm best of
                        Inl e \<Rightarrow> (Inl e, st1\<lparr>cache := dict_set (cache st1) key best\<rparr>)
                      | Inr t \<Rightarrow>
                          (let st3 = st1\<lparr>cache := dict_set (cache st1) key best,
                                         timings := dict_set (timings st1) key t\<rparr>
                           in case all_failed self t of
                                Inl e \<Rightarrow> (Inl e, st3)
                              | Inr failed \<Rightarrow>
                                  if failed
                                  then (Inl (RuntimeError ''All autotune examples failed''), st3)
                                  else (case pre_hook_fn self args True st3 of
                                          (Inl e, st4) \<Rightarrow> (Inl e, st4)
                                        | (Inr u, st4) \<Rightarrow> (Inr (best, False), st4))))))"
proof -
  have "dict_getitem (cache st4) key = Inr best"
    if "pre_hook_fn self args True
          (st1\<lparr>cache := dict_set (cache st1) key best, timings := dict_set (timings st1) key t\<rparr>)
        = (Inr u, st4)" for st4 best t u
    using pre_hook_fn_frame [OF that] by (simp add: dict_getitem_def map_of_dict_set)
  then show ?thesis
    using assms
    by (auto simp: run_select_def Let_def split: sum.splits prod.splits)
qed





lemma bench_all_append:
  "bench_all self w nargs args meta (xs @ ys) tm st =
     (case bench_all self w nargs args meta xs tm st of
        (Inl e, st') \<Rightarrow> (Inl e, st')
      | (Inr tm', st') \<Rightarrow> bench_all self w nargs args meta ys tm' st')"
  by (induction xs arbitrary: tm st) (auto split: prod.splits sum.splits)

lemma bench_all_no_conflict:
  "bench_all self w nargs args meta cs tm st = (Inr tm', st') \<Longrightarrow>
   list_all (\<lambda>c. \<not> list_ex (\<lambda>k. k \<in> set (dict_keys (kwargs c))) (dict_keys meta)) cs"
proof (induction cs arbitrary: tm st)
  case Nil
  then show ?case by simp
next
  case (Cons c cs)
  obtain r1 s1 where b: "bench self w nargs args c meta st = (r1, s1)"
    by (cases "bench self w nargs args c meta st")
  show ?case
  proof (cases r1)
    case (Inl e)
    with Cons.prems b show ?thesis by simp
  next
    case (Inr t)
    with Cons.prems b have "bench_all self w nargs args meta cs (dict_set tm c t) s1 = (Inr tm', st')"
      by simp
    from Cons.IH [OF this] bench_Inr [OF b [unfolded Inr]] show ?thesis by simp
  qed
qed

text \<open>
  C7, as amended. On a dispatch with more than one configuration whose key is not in the
  cache: if a keyword of the call is also a parameter of a pruned candidate, and the
  candidates before it in pruned order are benchmarked without an exception, then dispatch
  fails with the conflict \<^verbatim>\<open>ValueError\<close> when benchmarking reaches that candidate. The
  harness is not entered for it nor for any later candidate, nothing is cached or stored
  and the kernel is not dispatched; the candidates before it have been benchmarked, and none
  of them conflicts.
\<close>

theorem conflict_error:
  assumes many: "1 < length (configs self)"
      and key: "derive_key self (dict_of (zip (arg_names self) args)) kwargs' = Inr key"
      and miss: "\<not> dict_has (cache st) key"
      and pr: "prune_configs self (dict_of (zip (arg_names self) args)) kwargs'
                 = Inr (before @ c # after)"
      and conflict: "list_ex (\<lambda>k. k \<in> set (dict_keys (kwargs c))) (dict_keys kwargs')"
      and ba: "bench_all self w (dict_of (zip (arg_names self) args)) args kwargs' before [] st
                 = (Inr tm, st1)"
  shows "run self w args kwargs' st = (Inl (ValueError ''Conflicting meta-parameters''), st1)
         \<and> benches (trace st1) = benches (trace st) @ before
         \<and> cache st1 = cache st \<and> store st1 = store st
         \<and> list_all (\<lambda>c. \<not> list_ex (\<lambda>k. k \<in> set (dict_keys (kwargs c))) (dict_keys kwargs'))
               before"
proof -
  let ?nargs = "dict_of (zip (arg_names self) args)"
  have "bench_all self w ?nargs args kwargs' (before @ c # after) [] st
          = (Inl (ValueError ''Conflicting meta-parameters''), st1)"
    using ba conflict by (simp add: bench_all_append bench_def)
  from run_select_miss [OF many key miss pr this]
  have "run self w args kwargs' st = (Inl (ValueError ''Conflicting meta-parameters''), st1)"
    by (simp add: run_def)
  with bench_all_Inr [OF ba] bench_all_frame [OF ba] bench_all_no_conflict [OF ba]
  show ?thesis by simp
qed

theorem conflict_error_witness:
  "1 < length (configs (tuner_of 3 [block_config 16 4, tile_config]))
   \<and> derive_key (tuner_of 3 [block_config 16 4, tile_config])
         (dict_of (zip (arg_names (tuner_of 3 [block_config 16 4, tile_config])) args100))
         [(''TILE'', IntV 8)] = Inr key100
   \<and> \<not> dict_has (cache st0) key100
   \<and> prune_configs (tuner_of 3 [block_config 16 4, tile_config])
         (dict_of (zip (arg_names (tuner_of 3 [block_config 16 4, tile_config])) args100))
         [(''TILE'', IntV 8)] = Inr ([block_config 16 4] @ tile_config # [])
   \<and> list_ex (\<lambda>k. k \<in> set (dict_keys (kwargs tile_config))) (dict_keys [(''TILE'', IntV 8)])
   \<and> fst (bench_all (tuner_of 3 [block_config 16 4, tile_config]) w_tie
         (dict_of (zip (arg_names (tuner_of 3 [block_config 16 4, tile_config])) args100))
         args100 [(''TILE'', IntV 8)] [block_config 16 4] [] st0)
       = Inr [(block_config 16 4, Quantiles 10 9 12)]
   \<and> fst (run (tuner_of 3 [block_config 16 4, tile_config]) w_tie args100 [(''TILE'', IntV 8)] st0)
       = Inl (ValueError ''Conflicting meta-parameters'')
   \<and> benches (trace (snd (run (tuner_of 3 [block_config 16 4, tile_config]) w_tie args100
         [(''TILE'', IntV 8)] st0))) = benches (trace st0) @ [block_config 16 4]"
proof -
  let ?t = "tuner_of 3 [block_config 16 4, tile_config]"
  let ?kw = "[(''TILE'', IntV 8)]"
  let ?nargs = "dict_of (zip (arg_names ?t) args100)"
  have many: "1 < length (configs ?t)" by (simp add: tuner_of_def)
  have key: "derive_key ?t ?nargs ?kw = Inr key100" by (simp add: ev_defs)
  have miss: "\<not> dict_has (cache st0) key100" by (simp add: ev_defs)
  have pr: "prune_configs ?t ?nargs ?kw = Inr ([block_config 16 4] @ tile_config # [])"
    by (simp add: ev_defs)
  have cf: "list_ex (\<lambda>k. k \<in> set (dict_keys (kwargs tile_config))) (dict_keys ?kw)"
    by (simp add: dict_keys_def tile_config_def)
  have b: "fst (bench_all ?t w_tie ?nargs args100 ?kw [block_config 16 4] [] st0)
             = Inr [(block_config 16 4, Quantiles 10 9 12)]"
    by (simp add: ev_defs w_tie_def numeral_eq_enat)
  then have ba: "bench_all ?t w_tie ?nargs args100 ?kw [block_config 16 4] [] st0
      = (Inr [(block_config 16 4, Quantiles 10 9 12)],
         snd (bench_all ?t w_tie ?nargs args100 ?kw [block_config 16 4] [] st0))"
    by (metis surjective_pairing)
  from conflict_error [OF many key miss pr cf ba] many key miss pr cf b
  show ?thesis by simp
qed

text \<open>
  The claim as stated fails when the conflicting candidate is not the first: the candidate
  before it is measured, with two kernel invocations, before the conflict error is raised.
\<close>

theorem conflict_error_counterexample:
  "list_ex (\<lambda>k. k \<in> set (dict_keys (kwargs tile_config))) (dict_keys [(''TILE'', IntV 8)])
   \<and> fst (run (tuner_of 3 [block_config 16 4, tile_config]) w_tie args100 [(''TILE'', IntV 8)] st0)
       = Inl (ValueError ''Conflicting meta-parameters'')
   \<and> trace (snd (run (tuner_of 3 [block_config 16 4, tile_config]) w_tie args100
         [(''TILE'', IntV 8)] st0))
       = [Bench (block_config 16 4), Trial (block_config 16 4), Trial (block_config 16 4)]"
  by (simp add: ev_defs w_tie_def tile_config_def)

section \<open>Benchmarking at most once\<close>











text \<open>
  C3 fails on the code. Line 306 writes the cache entry before lines 308-313 test for total
  failure, so after a dispatch that raised "All autotune examples failed" the key is in the
  cache with the first candidate, whose recorded timing is the sentinel. The next dispatch
  with the same key is a cache hit and invokes the kernel with that candidate: where the
  kernel always raises \<^verbatim>\<open>OutOfResources\<close> the caller gets that exception, and where the
  harness had failed for every candidate the dispatch returns normally.
\<close>

theorem total_failure_not_resurfaced:
  "fst (run tuner w_oor args100 [] st0) = Inl (RuntimeError ''All autotune examples failed'')
   \<and> map_of (cache (snd (run tuner w_oor args100 [] st0))) key100 = Some (block_config 16 4)
   \<and> map_of (timings (snd (run tuner w_oor args100 [] st0))) key100
       = Some (Quantiles \<infinity> \<infinity> \<infinity>)
   \<and> fst (run tuner w_oor args100 [] (snd (run tuner w_oor args100 [] st0)))
       = Inl OutOfResources
   \<and> trace (snd (run tuner w_oor args100 [] (snd (run tuner w_oor args100 [] st0))))
       = trace (snd (run tuner w_oor args100 [] st0)) @ [Production (block_config 16 4)]
   \<and> fst (run tuner w_assert args100 [] st0)
       = Inl (RuntimeError ''All autotune examples failed'')
   \<and> fst (run tuner w_assert args100 [] (snd (run tuner w_assert args100 [] st0)))
       = Inr (IntV 0)
   \<and> trace (snd (run tuner w_assert args100 [] (snd (run tuner w_assert args100 [] st0))))
       = trace (snd (run tuner w_assert args100 [] st0)) @ [Production (block_config 16 4)]"
  by (simp add: ev_defs w_oor_def w_assert_def w_tie_def)

text \<open>
  The same defect reaches the store: a later dispatch that resolves another key passes
  \<^verbatim>\<open>self.cache\<close> and \<^verbatim>\<open>self._timings\<close> to \<^verbatim>\<open>add_autotuner_cache\<close>, and both
  still hold the key whose candidates all failed.
\<close>

lemma failed_key_handed_to_store:
  "fst (run tuner w_oor100 args100 [] st0) = Inl (RuntimeError ''All autotune examples failed'')
   \<and> store (snd (run tuner w_oor100 args100 [] st0)) = []
   \<and> fst (run tuner w_oor100 args200 [] (snd (run tuner w_oor100 args100 [] st0))) = Inr (IntV 0)
   \<and> store (snd (run tuner w_oor100 args200 [] (snd (run tuner w_oor100 args100 [] st0))))
       = [([(key100, block_config 16 4), (key200, block_config 32 4)],
           [(key100, Quantiles \<infinity> \<infinity> \<infinity>), (key200, Quantiles 10 8 11)])]"
  by (simp add: ev_defs w_oor100_def w_tie_def args200_def key200_def arg_at_def numeral_eq_enat)

subsection \<open>The key when every declared argument is passed\<close>

text \<open>
  When every declared argument is passed, positionally or by keyword, the key is the values
  of the key arguments in the order of the key specification, followed by the element
  types of the tensor arguments in declaration order.
\<close>

lemma index_from_Inr:
  "index_from xs x i = Inr n \<Longrightarrow> i \<le> n \<and> n - i < length xs \<and> xs ! (n - i) = x"
proof (induction xs arbitrary: i)
  case Nil
  then show ?case by simp
next
  case (Cons y ys)
  show ?case
  proof (cases "y = x")
    case True
    with Cons.prems show ?thesis by simp
  next
    case False
    with Cons.prems have "index_from ys x (Suc i) = Inr n" by simp
    from Cons.IH [OF this] have "Suc i \<le> n" "n - Suc i < length ys" "ys ! (n - Suc i) = x"
      by simp_all
    moreover from this have "n - i = Suc (n - Suc i)" by simp
    ultimately show ?thesis by simp
  qed
qed

lemma indices_Inr:
  "indices names ks = Inr idx \<Longrightarrow>
   length idx = length ks \<and> (\<forall>n < length ks. idx ! n < length names \<and> names ! (idx ! n) = ks ! n)"
proof (induction ks arbitrary: idx)
  case Nil
  then show ?case by simp
next
  case (Cons k ks)
  from Cons.prems obtain i rest where
    i: "index_from names k 0 = Inr i" and r: "indices names ks = Inr rest" and
    idx: "idx = i # rest"
    by (auto split: sum.splits)
  from index_from_Inr [OF i] Cons.IH [OF r] idx show ?case
    by (auto simp: nth_Cons split: nat.splits)
qed

lemma map_filter_all_present:
  "list_all (\<lambda>n. dict_has d n) names \<Longrightarrow>
   List.map_filter (map_of d) names = map (\<lambda>n. the (map_of d n)) names"
  by (induction names) (auto simp: List.map_filter_def dict_has_def)

lemma derive_key_all_present:
  assumes idx: "indices (arg_names self) key = Inr (key_idx self)"
      and all: "list_all (\<lambda>n. dict_has (dict_update nargs kwargs') n) (arg_names self)"
  shows "derive_key self nargs kwargs' =
           Inr (map (\<lambda>k. the (map_of (dict_update nargs kwargs') k)) key
                @ List.map_filter dtype_str
                    (map (\<lambda>n. the (map_of (dict_update nargs kwargs') n)) (arg_names self)))"
proof -
  let ?d = "dict_update nargs kwargs'"
  let ?present = "map (\<lambda>n. the (map_of ?d n)) (arg_names self)"
  from map_filter_all_present [OF all]
  have p: "List.map_filter (map_of ?d) (arg_names self) = ?present" .
  from indices_Inr [OF idx] have
    len: "length (key_idx self) = length key" and
    ix: "\<forall>n < length key. key_idx self ! n < length (arg_names self)
            \<and> arg_names self ! (key_idx self ! n) = key ! n"
    by simp_all
  have in_range: "\<not> list_ex (\<lambda>i. length ?present \<le> i) (key_idx self)"
  proof
    assume "list_ex (\<lambda>i. length ?present \<le> i) (key_idx self)"
    then obtain n where "n < length (key_idx self)" "length ?present \<le> key_idx self ! n"
      by (auto simp: list_ex_iff in_set_conv_nth)
    with ix len show False by (simp add: not_less [symmetric])
  qed
  have "map (\<lambda>i. ?present ! i) (key_idx self) = map (\<lambda>k. the (map_of ?d k)) key"
  proof (rule nth_equalityI)
    show "length (map (\<lambda>i. ?present ! i) (key_idx self))
            = length (map (\<lambda>k. the (map_of ?d k)) key)"
      using len by simp
  next
    fix n assume "n < length (map (\<lambda>i. ?present ! i) (key_idx self))"
    then have n: "n < length key" using len by simp
    with ix have "key_idx self ! n < length (arg_names self)"
      and "arg_names self ! (key_idx self ! n) = key ! n" by simp_all
    with n len show "map (\<lambda>i. ?present ! i) (key_idx self) ! n
                      = map (\<lambda>k. the (map_of ?d k)) key ! n"
      by simp
  qed
  with p in_range show ?thesis by (simp add: derive_key_def Let_def)
qed

lemma init_shifted: "Autotuner_init env3 shifted_args = Inr (shifted_tuner, [])"
  by (simp add: Autotuner_init_def initial_configs_def env3_def tuner_args_def shifted_args_def
      shifted_tuner_def tuner_of_def)

text \<open>
  C5 fails on the code. \<^verbatim>\<open>key_idx\<close> holds positions in \<^verbatim>\<open>arg_names\<close>, and line 290
  applies them to the list of the arguments that are present, which is shorter when a
  declared argument before a key argument is not passed (here the tunable parameter
  \<^verbatim>\<open>BLOCK\<close>, which the configurations supply). With the key \<^verbatim>\<open>["n"]\<close> the key then
  holds the value of \<^verbatim>\<open>m\<close>: two calls with the same \<^verbatim>\<open>n\<close> and different \<^verbatim>\<open>m\<close> get
  different keys, and two calls with different \<^verbatim>\<open>n\<close> and the same \<^verbatim>\<open>m\<close> get the same.
\<close>

theorem derive_key_shifted:
  "Autotuner_init env3 shifted_args = Inr (shifted_tuner, [])
   \<and> derive_key shifted_tuner (dict_of (zip (arg_names shifted_tuner) []))
         [(''n'', IntV 2), (''m'', IntV 3)] = Inr [IntV 3]
   \<and> derive_key shifted_tuner (dict_of (zip (arg_names shifted_tuner) []))
         [(''n'', IntV 2), (''m'', IntV 4)] = Inr [IntV 4]
   \<and> derive_key shifted_tuner (dict_of (zip (arg_names shifted_tuner) []))
         [(''n'', IntV 5), (''m'', IntV 3)] = Inr [IntV 3]"
  by (simp add: init_shifted) (simp add: ev_defs shifted_tuner_def)

section \<open>Reset and restore\<close>

subsection \<open>The built-in hooks\<close>

lemma zero_all_other:
  "zero_all args idx h = (r, h') \<Longrightarrow>
   list_all (\<lambda>i. addr_of (args ! i) \<noteq> Some a) idx \<Longrightarrow> h' a = h a"
proof (induction idx arbitrary: h)
  case Nil
  then show ?case by simp
next
  case (Cons i rest)
  show ?case
  proof (cases "i < length args")
    case False
    with Cons.prems show ?thesis by (simp add: arg_at_def)
  next
    case True
    show ?thesis
    proof (cases "args ! i")
      case (TensorV b dt)
      with Cons.prems True have ne: "b \<noteq> a"
        and z: "zero_all args rest (h(b := map (\<lambda>x. 0) (h b))) = (r, h')"
        by (simp_all add: arg_at_def tensor_zero_def)
      from Cons.IH [OF z] Cons.prems(2) ne show ?thesis by simp
    qed (use Cons.prems True in \<open>simp_all add: arg_at_def tensor_zero_def\<close>)
  qed
qed

lemma zero_all_keeps_zero:
  "zero_all args idx h = (r, h') \<Longrightarrow> list_all (\<lambda>x. x = 0) (h b) \<Longrightarrow>
   list_all (\<lambda>x. x = 0) (h' b)"
proof (induction idx arbitrary: h)
  case Nil
  then show ?case by simp
next
  case (Cons i rest)
  show ?case
  proof (cases "i < length args")
    case False
    with Cons.prems show ?thesis by (simp add: arg_at_def)
  next
    case True
    show ?thesis
    proof (cases "args ! i")
      case (TensorV c dt)
      with Cons.prems True
      have z: "zero_all args rest (h(c := map (\<lambda>x. 0) (h c))) = (r, h')"
        by (simp add: arg_at_def tensor_zero_def)
      have "list_all (\<lambda>x. x = 0) ((h(c := map (\<lambda>x. 0) (h c))) b)"
        using Cons.prems(2) by (simp add: list_all_iff)
      from Cons.IH [OF z this] show ?thesis .
    qed (use Cons.prems True in \<open>simp_all add: arg_at_def tensor_zero_def\<close>)
  qed
qed

lemma zero_all_zero:
  "zero_all args idx h = (Inr u, h') \<Longrightarrow> i \<in> set idx \<Longrightarrow> addr_of (args ! i) = Some b \<Longrightarrow>
   list_all (\<lambda>x. x = 0) (h' b)"
proof (induction idx arbitrary: h)
  case Nil
  then show ?case by simp
next
  case (Cons i0 rest)
  from Cons.prems(1) have lt: "i0 < length args"
    by (auto simp: arg_at_def split: if_splits)
  from Cons.prems(1) lt obtain c dt where t: "args ! i0 = TensorV c dt"
    by (cases "args ! i0") (simp_all add: arg_at_def tensor_zero_def)
  with Cons.prems(1) lt
  have z: "zero_all args rest (h(c := map (\<lambda>x. 0) (h c))) = (Inr u, h')"
    by (simp add: arg_at_def tensor_zero_def)
  show ?case
  proof (cases "i \<in> set rest")
    case True
    from Cons.IH [OF z True Cons.prems(3)] show ?thesis .
  next
    case False
    with Cons.prems(2) have "i = i0" by simp
    with t Cons.prems(3) have "c = b" by simp
    then have "list_all (\<lambda>x. x = 0) ((h(c := map (\<lambda>x. 0) (h c))) b)"
      by (simp add: list_all_iff)
    from zero_all_keeps_zero [OF z this] show ?thesis .
  qed
qed

lemma clone_all_Inr:
  "clone_all args idx h = Inr copies \<Longrightarrow>
   length copies = length idx
   \<and> (\<forall>n < length idx. idx ! n < length args
        \<and> (\<exists>a dt. args ! (idx ! n) = TensorV a dt \<and> copies ! n = h a))"
proof (induction idx arbitrary: copies)
  case Nil
  then show ?case by simp
next
  case (Cons i rest)
  from Cons.prems have lt: "i < length args"
    by (auto simp: arg_at_def split: if_splits)
  from Cons.prems lt obtain a dt where t: "args ! i = TensorV a dt"
    by (cases "args ! i") (simp_all add: arg_at_def tensor_clone_def)
  from Cons.prems lt t obtain cs where
    r: "clone_all args rest h = Inr cs" and c: "copies = h a # cs"
    by (auto simp: arg_at_def tensor_clone_def split: sum.splits)
  from Cons.IH [OF r] lt t c show ?case
    by (auto simp: nth_Cons split: nat.splits)
qed

lemma copy_all_restores:
  assumes "length copies = i + length idx"
      and "\<forall>n < length idx. idx ! n < length args
             \<and> (\<exists>a dt. args ! (idx ! n) = TensorV a dt \<and> copies ! (i + n) = h0 a)"
  shows "\<exists>h'. copy_all args idx i copies h = (Inr (), h')
           \<and> (\<forall>j \<in> set idx. \<forall>a. addr_of (args ! j) = Some a \<longrightarrow> h' a = h0 a)
           \<and> (\<forall>a. h a = h0 a \<longrightarrow> h' a = h0 a)"
  using assms
proof (induction idx arbitrary: i h)
  case Nil
  then show ?case by simp
next
  case (Cons j0 rest)
  from Cons.prems(2) [rule_format, of 0] obtain a0 dt0 where
    lt: "j0 < length args" and t: "args ! j0 = TensorV a0 dt0" and c: "copies ! i = h0 a0"
    by auto
  have l: "length copies = Suc i + length rest" using Cons.prems(1) by simp
  have p: "\<forall>n < length rest. rest ! n < length args
             \<and> (\<exists>a dt. args ! (rest ! n) = TensorV a dt \<and> copies ! (Suc i + n) = h0 a)"
  proof (intro allI impI)
    fix n assume "n < length rest"
    then have "Suc n < length (j0 # rest)" by simp
    from Cons.prems(2) [rule_format, OF this] show "rest ! n < length args
             \<and> (\<exists>a dt. args ! (rest ! n) = TensorV a dt \<and> copies ! (Suc i + n) = h0 a)"
      by simp
  qed
  from Cons.IH [OF l p, of "h(a0 := h0 a0)"] obtain h' where
    r: "copy_all args rest (Suc i) copies (h(a0 := h0 a0)) = (Inr (), h')" and
    hit: "\<forall>j \<in> set rest. \<forall>a. addr_of (args ! j) = Some a \<longrightarrow> h' a = h0 a" and
    keep: "\<forall>a. (h(a0 := h0 a0)) a = h0 a \<longrightarrow> h' a = h0 a"
    by blast
  have "copy_all args (j0 # rest) i copies h = (Inr (), h')"
    using lt t c r Cons.prems(1) by (simp add: arg_at_def tensor_copy_def)
  moreover have "h' a0 = h0 a0" using keep by simp
  moreover have "\<forall>a. h a = h0 a \<longrightarrow> h' a = h0 a" using keep by simp
  ultimately show ?case using hit t by auto
qed

subsection \<open>A restored buffer over a benchmarking pass\<close>

lemma pre_hook_fn_keeps:
  assumes "custom_pre_hook self = None"
      and "list_all (\<lambda>i. addr_of (args ! i) \<noteq> Some a) (reset_idx self)"
      and "pre_hook_fn self args ro st = (r, st')"
  shows "heap st' a = heap st a"
proof (cases "0 < length (reset_idx self) \<or> 0 < length (restore_idx self)")
  case False
  with assms show ?thesis by (simp add: pre_hook_fn_def)
next
  case True
  obtain rz hz where z: "zero_all args (reset_idx self) (heap st) = (rz, hz)"
    by (cases "zero_all args (reset_idx self) (heap st)")
  from zero_all_other [OF z assms(2)] have "hz a = heap st a" .
  moreover have "heap st' = hz"
    using assms(1,3) True z
    by (auto simp: pre_hook_fn_def split: sum.splits if_splits)
  ultimately show ?thesis by simp
qed

lemma kernel_call_keeps:
  assumes pre: "custom_pre_hook self = None" and post: "custom_post_hook self = None"
      and j: "j \<in> set (restore_idx self)" and a: "addr_of (args ! j) = Some a"
      and na: "list_all (\<lambda>i. addr_of (args ! i) \<noteq> Some a) (reset_idx self)"
      and w1: "\<And>t hk kw h r h'. config_pre_hook w t hk kw h = (r, h') \<Longrightarrow> h' a = h a"
      and w2: "\<And>t xs kw h e h'. fn_run w t xs kw h = (Inl e, h') \<Longrightarrow> h' a = h a"
      and kc: "kernel_call self w args c cur full st = (r, st')"
  shows "heap st' a = heap st a"
proof -
  obtain r1 st1 where h1: "call_config_pre_hook w c full st = (r1, st1)"
    by (cases "call_config_pre_hook w c full st")
  have k1: "heap st1 a = heap st a"
    using h1 w1 by (auto simp: call_config_pre_hook_def split: option.splits prod.splits)
  show ?thesis
  proof (cases r1)
    case (Inl e)
    with kc h1 k1 show ?thesis by (simp add: kernel_call_def)
  next
    case r1: (Inr u1)
    obtain r2 st2 where h2: "pre_hook_fn self args False st1 = (r2, st2)"
      by (cases "pre_hook_fn self args False st1")
    from pre_hook_fn_keeps [OF pre na h2] k1 have k2: "heap st2 a = heap st a" by simp
    show ?thesis
    proof (cases r2)
      case (Inl e)
      with kc h1 r1 h2 k2 show ?thesis by (simp add: kernel_call_def)
    next
      case r2: (Inr u2)
      from j have ne: "0 < length (restore_idx self)" by (cases "restore_idx self") auto
      from h2 r2 pre ne obtain hz copies where
        z: "zero_all args (reset_idx self) (heap st1) = (Inr (), hz)" and
        cl: "clone_all args (restore_idx self) hz = Inr copies" and
        s2: "st2 = st1\<lparr>heap := hz, restore_copies := copies\<rparr>"
        by (auto simp: pre_hook_fn_def split: sum.splits prod.splits)
      let ?kw = "if 3 \<le> triton_major_version self then Inr cur
                 else call_kwargs (launch_kwargs c) cur"
      show ?thesis
      proof (cases ?kw)
        case (Inl e)
        with kc h1 r1 h2 r2 k2 show ?thesis by (simp add: kernel_call_def)
      next
        case kw: (Inr kw)
        obtain r3 st3 where h3: "invoke w (Trial c) args kw st2 = (r3, st3)"
          by (cases "invoke w (Trial c) args kw st2")
        then have f3: "fn_run w (length (trace st2)) args kw (heap st2) = (r3, heap st3)"
          and rc3: "restore_copies st3 = restore_copies st2"
          by (auto simp: invoke_def split: prod.splits)
        show ?thesis
        proof (cases r3)
          case (Inl e)
          with w2 f3 have "heap st3 a = heap st2 a" by blast
          with kc h1 r1 h2 r2 kw h3 Inl k2 show ?thesis by (simp add: kernel_call_def)
        next
          case r3: (Inr ret)
          from kc h1 r1 h2 r2 kw h3 r3
          have ph: "post_hook_fn self args st3 = (r, st')" by (simp add: kernel_call_def)
          from clone_all_Inr [OF cl]
          have len: "length copies = 0 + length (restore_idx self)"
            and cp: "\<forall>n < length (restore_idx self). restore_idx self ! n < length args
               \<and> (\<exists>a dt. args ! (restore_idx self ! n) = TensorV a dt
                      \<and> copies ! (0 + n) = hz a)"
            by simp_all
          from copy_all_restores [OF len cp, of "heap st3"] obtain h' where
            ca: "copy_all args (restore_idx self) 0 copies (heap st3) = (Inr (), h')" and
            hit: "\<forall>j \<in> set (restore_idx self). \<forall>a. addr_of (args ! j) = Some a \<longrightarrow> h' a = hz a"
            by blast
          from ph post ne ca rc3 s2 have "heap st' = h'"
            by (auto simp: post_hook_fn_def)
          with hit j a have "heap st' a = hz a" by simp
          with k2 s2 show ?thesis by simp
        qed
      qed
    qed
  qed
qed

lemma repeat_call_invariant:
  assumes "\<And>s r s'. f s = (r, s') \<Longrightarrow> P s \<Longrightarrow> P s'"
      and "repeat_call n f st = (r, st')" and "P st"
  shows "P st'"
  using assms(2,3)
proof (induction n arbitrary: st)
  case 0
  then show ?case by simp
next
  case (Suc n)
  obtain r1 s1 where f: "f st = (r1, s1)" by (cases "f st")
  from assms(1) [OF f Suc.prems(2)] have p1: "P s1" .
  show ?case
  proof (cases r1)
    case (Inl e)
    with Suc.prems f p1 show ?thesis by simp
  next
    case (Inr u)
    with Suc.prems f have "repeat_call n f s1 = (r, st')" by simp
    from Suc.IH [OF this p1] show ?thesis .
  qed
qed

lemma bench_invariant:
  assumes inv: "\<And>cur full s r s'. kernel_call self w args c cur full s = (r, s') \<Longrightarrow>
                  heap s a = v \<Longrightarrow> heap s' a = v"
      and b: "bench self w nargs args c meta st = (r, st')" and p: "heap st a = v"
  shows "heap st' a = v"
proof (cases "list_ex (\<lambda>k. k \<in> set (dict_keys (kwargs c))) (dict_keys meta)")
  case True
  with b p show ?thesis by (simp add: bench_def)
next
  case False
  let ?f = "kernel_call self w args c (dict_update meta (all_kwargs c))
              (dict_update nargs (dict_update meta (all_kwargs c)))"
  let ?st0 = "st\<lparr>trace := trace st @ [Bench c]\<rparr>"
  obtain r1 s1 where rc: "repeat_call (harness_calls w (length (trace st)) c) ?f ?st0 = (r1, s1)"
    by (cases "repeat_call (harness_calls w (length (trace st)) c) ?f ?st0")
  have "heap s1 a = v"
    by (rule repeat_call_invariant [where P = "\<lambda>s. heap s a = v", OF _ rc])
       (use inv p in auto)
  moreover have "snd (bench_try self w nargs args c meta st) = s1"
    using rc
    by (auto simp: bench_try_def do_bench_def do_bench_cudagraph_def Let_def
        split: if_splits sum.splits prod.splits)
  ultimately show ?thesis
    using b False by (auto simp: bench_def split: sum.splits if_splits prod.splits)
qed

lemma bench_all_invariant:
  assumes inv: "\<And>c cur full s r s'. kernel_call self w args c cur full s = (r, s') \<Longrightarrow>
                  heap s a = v \<Longrightarrow> heap s' a = v"
  shows "bench_all self w nargs args meta cs tm st = (r, st') \<Longrightarrow> heap st a = v \<Longrightarrow>
         heap st' a = v"
proof (induction cs arbitrary: tm st)
  case Nil
  then show ?case by simp
next
  case (Cons c cs)
  obtain r1 s1 where b: "bench self w nargs args c meta st = (r1, s1)"
    by (cases "bench self w nargs args c meta st")
  from bench_invariant [OF inv b Cons.prems(2)] have p1: "heap s1 a = v" .
  show ?case
  proof (cases r1)
    case (Inl e)
    with Cons.prems b p1 show ?thesis by simp
  next
    case (Inr t)
    with Cons.prems b have "bench_all self w nargs args meta cs (dict_set tm c t) s1 = (r, st')"
      by simp
    from Cons.IH [OF this p1] show ?thesis .
  qed
qed

lemma run_select_benchmarked:
  assumes "run_select self w args kwargs' st = (Inr (config, False), st')"
  shows "\<exists>nargs pruned tm st1 st3.
           bench_all self w nargs args kwargs' pruned [] st = (Inr tm, st1)
           \<and> heap st3 = heap st1
           \<and> pre_hook_fn self args True st3 = (Inr (), st')"
proof -
  let ?nargs = "dict_of (zip (arg_names self) args)"
  from assms have many: "1 < length (configs self)"
    by (auto simp: run_select_def split: if_splits list.splits)
  from assms many obtain key where key: "derive_key self ?nargs kwargs' = Inr key"
    by (auto simp: run_select_def Let_def split: sum.splits)
  from assms many key have miss: "\<not> dict_has (cache st) key"
    by (auto simp: run_select_def Let_def split: sum.splits if_splits)
  from assms many key miss obtain pruned where
    pr: "prune_configs self ?nargs kwargs' = Inr pruned"
    by (auto simp: run_select_def Let_def split: sum.splits)
  obtain rb st1 where ba: "bench_all self w ?nargs args kwargs' pruned [] st = (rb, st1)"
    by (cases "bench_all self w ?nargs args kwargs' pruned [] st")
  from run_select_miss [OF many key miss pr ba] assms
  have "\<exists>tm best t. rb = Inr tm
          \<and> pre_hook_fn self args True
                (st1\<lparr>cache := dict_set (cache st1) key best,
                      timings := dict_set (timings st1) key t\<rparr>) = (Inr (), st')"
    by (auto simp: Let_def split: sum.splits if_splits prod.splits)
  then obtain tm best t where "rb = Inr tm" and
    ph: "pre_hook_fn self args True
           (st1\<lparr>cache := dict_set (cache st1) key best,
                 timings := dict_set (timings st1) key t\<rparr>) = (Inr (), st')"
    by blast
  with ba have "bench_all self w ?nargs args kwargs' pruned [] st = (Inr tm, st1)" by simp
  moreover have "heap (st1\<lparr>cache := dict_set (cache st1) key best,
                 timings := dict_set (timings st1) key t\<rparr>) = heap st1" by simp
  ultimately show ?thesis using ph by blast
qed

lemma init_hook_tuner: "Autotuner_init env3 hook_args = Inr (hook_tuner, [])"
  by (simp add: Autotuner_init_def initial_configs_def env3_def tuner_args_def hook_args_def
      hook_tuner_def tuner_of_def)

text \<open>
  C9, as amended. Take an engine with the built-in hooks (no \<^verbatim>\<open>pre_hook\<close> or
  \<^verbatim>\<open>post_hook\<close> of the caller) and a dispatch that ran a benchmarking pass and reached
  the production dispatch. Immediately before the production dispatch, the buffer of every
  argument named in \<^verbatim>\<open>reset_to_zero\<close> holds zeros only, whatever it held before the first
  trial; and the buffer of an argument named in \<^verbatim>\<open>restore_value\<close> that is not also the
  buffer of a reset argument holds what it held before the first trial, provided the
  pre-hooks of the configurations and the kernel invocations that raise leave that buffer
  as it is. In both cases what the trial runs wrote does not reach the production call.
\<close>

theorem hooks_before_production:
  assumes pre: "custom_pre_hook self = None" and post: "custom_post_hook self = None"
      and sel: "run_select self w args kwargs' st = (Inr (config, False), st')"
  shows "(i \<in> set (reset_idx self) \<and> addr_of (args ! i) = Some b
            \<longrightarrow> list_all (\<lambda>x. x = 0) (heap st' b))
         \<and> (j \<in> set (restore_idx self) \<and> addr_of (args ! j) = Some a
              \<and> list_all (\<lambda>i. addr_of (args ! i) \<noteq> Some a) (reset_idx self)
              \<and> (\<forall>t hk kw h r h'. config_pre_hook w t hk kw h = (r, h') \<longrightarrow> h' a = h a)
              \<and> (\<forall>t xs kw h e h'. fn_run w t xs kw h = (Inl e, h') \<longrightarrow> h' a = h a)
            \<longrightarrow> heap st' a = heap st a)"
proof -
  from run_select_benchmarked [OF sel] obtain nargs pruned tm st1 st3 where
    ba: "bench_all self w nargs args kwargs' pruned [] st = (Inr tm, st1)" and
    h3: "heap st3 = heap st1" and
    ph: "pre_hook_fn self args True st3 = (Inr (), st')"
    by blast
  have reset: "list_all (\<lambda>x. x = 0) (heap st' b)"
    if i: "i \<in> set (reset_idx self)" and b: "addr_of (args ! i) = Some b"
  proof -
    from i have ne: "0 < length (reset_idx self)" by (cases "reset_idx self") auto
    from ph pre ne obtain h where
      z: "zero_all args (reset_idx self) (heap st3) = (Inr (), h)" and "heap st' = h"
      by (auto simp: pre_hook_fn_def split: sum.splits prod.splits)
    with zero_all_zero [OF z i b] show ?thesis by simp
  qed
  have restore: "heap st' a = heap st a"
    if j: "j \<in> set (restore_idx self)" and a: "addr_of (args ! j) = Some a"
      and na: "list_all (\<lambda>i. addr_of (args ! i) \<noteq> Some a) (reset_idx self)"
      and w1: "\<forall>t hk kw h r h'. config_pre_hook w t hk kw h = (r, h') \<longrightarrow> h' a = h a"
      and w2: "\<forall>t xs kw h e h'. fn_run w t xs kw h = (Inl e, h') \<longrightarrow> h' a = h a"
  proof -
    have inv: "heap s' a = heap st a"
      if "kernel_call self w args c cur full s = (r, s')" and "heap s a = heap st a"
      for c cur full s r s'
      using kernel_call_keeps [OF pre post j a na _ _ that(1)] w1 w2 that(2) by metis
    from bench_all_invariant [where v = "heap st a", OF inv ba]
    have "heap st1 a = heap st a" by simp
    with pre_hook_fn_keeps [OF pre na ph] h3 show ?thesis by simp
  qed
  from reset restore show ?thesis by blast
qed

theorem hooks_before_production_witness:
  "custom_pre_hook hook_tuner = None \<and> custom_post_hook hook_tuner = None
   \<and> fst (run_select hook_tuner w_inc acc_out_args [] st57) = Inr (block_config 32 4, False)
   \<and> 0 \<in> set (reset_idx hook_tuner) \<and> addr_of (acc_out_args ! 0) = Some 0
   \<and> 1 \<in> set (restore_idx hook_tuner) \<and> addr_of (acc_out_args ! 1) = Some 1
   \<and> list_all (\<lambda>i. addr_of (acc_out_args ! i) \<noteq> Some 1) (reset_idx hook_tuner)
   \<and> list_all (\<lambda>x. x = 0) (heap (snd (run_select hook_tuner w_inc acc_out_args [] st57)) 0)
   \<and> heap (snd (run_select hook_tuner w_inc acc_out_args [] st57)) 1 = heap st57 1
   \<and> heap st57 1 = [7, 7]"
proof -
  let ?st' = "snd (run_select hook_tuner w_inc acc_out_args [] st57)"
  have h: "custom_pre_hook hook_tuner = None" "custom_post_hook hook_tuner = None"
    "0 \<in> set (reset_idx hook_tuner)" "addr_of (acc_out_args ! 0) = Some 0"
    "1 \<in> set (restore_idx hook_tuner)" "addr_of (acc_out_args ! 1) = Some 1"
    "list_all (\<lambda>i. addr_of (acc_out_args ! i) \<noteq> Some 1) (reset_idx hook_tuner)"
    by (simp_all add: hook_tuner_def tuner_of_def acc_out_args_def)
  have f: "fst (run_select hook_tuner w_inc acc_out_args [] st57) = Inr (block_config 32 4, False)"
    by (simp add: ev_defs hook_tuner_def w_inc_def w_tie_def acc_out_args_def st57_def
        arg_at_def tensor_zero_def tensor_clone_def tensor_copy_def numeral_eq_enat)
  then have sel: "run_select hook_tuner w_inc acc_out_args [] st57
                    = (Inr (block_config 32 4, False), ?st')"
    by (metis surjective_pairing)
  have w1: "\<forall>t hk kw h r h'. config_pre_hook w_inc t hk kw h = (r, h') \<longrightarrow> h' 1 = h 1"
    by (simp add: w_inc_def w_tie_def)
  have w2: "\<forall>t xs kw h e h'. fn_run w_inc t xs kw h = (Inl e, h') \<longrightarrow> h' 1 = h 1"
    by (simp add: w_inc_def w_tie_def)
  have s: "heap st57 1 = [7, 7]" by (simp add: st57_def init_state_def)
  from hooks_before_production [OF h(1,2) sel, of 0 0 1 1] h f w1 w2 s
  show ?thesis by simp
qed

text \<open>
  The claim as stated fails for an argument named in \<^verbatim>\<open>reset_to_zero\<close> whose buffer is
  not zero when dispatch is called: before the first trial \<^verbatim>\<open>acc\<close> holds
  \<^verbatim>\<open>[5, 5]\<close>, and before the production dispatch it holds \<^verbatim>\<open>[0, 0]\<close>.
\<close>

theorem hooks_before_production_counterexample:
  "Autotuner_init env3 hook_args = Inr (hook_tuner, [])
   \<and> heap st57 0 = [5, 5]
   \<and> fst (run_select hook_tuner w_inc acc_out_args [] st57) = Inr (block_config 32 4, False)
   \<and> heap (snd (run_select hook_tuner w_inc acc_out_args [] st57)) 0 = [0, 0]
   \<and> heap (snd (run_select hook_tuner w_inc acc_out_args [] st57)) 1 = [7, 7]"
  by (simp add: init_hook_tuner)
     (simp add: ev_defs hook_tuner_def w_inc_def w_tie_def acc_out_args_def st57_def
        arg_at_def tensor_zero_def tensor_clone_def tensor_copy_def numeral_eq_enat)

end
